theory Spec2Isabelle
  imports
    Complex_Main
    "HOL-Library.Log_Nat"
    "HOL-Library.Multiset"
    "HOL-Library.Sublist"
    "HOL-Library.Char_ord"
    "HOL-Library.List_Lexorder"
begin

chapter \<open>Coverage indicators of the indigenous health districts (DSEI)\<close>

text \<open>
  The scripts load spreadsheets with pandas, resolve the columns they need by name,
  sum counts per district, divide the sums to get a coverage, compare and rank the
  districts. This theory embeds that pipeline: the float64 arithmetic the ratios are
  computed in, the pandas operations the scripts call (with their default arguments,
  which decide several properties), and the functions of the six scripts.
\<close>

section \<open>float64 values\<close>

text \<open>
  A pandas float column holds IEEE 754 binary64 values. \<open>Fin q\<close> is the finite value
  \<open>q\<close> (a rational that has a 53-bit significand), \<open>PInf\<close> and \<open>NInf\<close> are the
  infinities and \<open>NaN\<close> is the missing value of pandas. The two zeros are one value
  \<open>Fin 0\<close>: they differ only as divisors, and a negative zero needs a negative count,
  which the tables of counts (type \<open>nat\<close>) do not have.
\<close>

datatype f64 = Fin rat | PInf | NInf | NaN

text \<open>\<open>ilog2 x\<close> is the binary exponent of a positive rational: \<open>2^e \<le> x < 2^(e+1)\<close>.\<close>

definition ilog2 :: "rat \<Rightarrow> int" where
  "ilog2 x = (let k = bitlen (fst (quotient_of x)) - bitlen (snd (quotient_of x))
              in if 2 powi k \<le> x then k else k - 1)"

definition round_half_even :: "rat \<Rightarrow> int" where
  "round_half_even m =
     (let f = \<lfloor>m\<rfloor>; d = m - of_int f
      in if d < 1 / 2 then f else if 1 / 2 < d then f + 1 else if even f then f else f + 1)"

text \<open>
  Rounding to nearest, ties to even, with 53 significant bits, gradual underflow below
  \<open>2^-1022\<close> and overflow to an infinity from \<open>2^1024\<close> on.
\<close>

definition round_f64 :: "rat \<Rightarrow> f64" where
  "round_f64 x =
     (if x = 0 then Fin 0
      else let e = max (ilog2 \<bar>x\<bar>) (- 1022);
               ulp = 2 powi (e - 52);
               r = of_int (round_half_even (\<bar>x\<bar> / ulp)) * ulp
           in if 2 powi 1024 \<le> r then (if 0 < x then PInf else NInf) else Fin (sgn x * r))"

fun fneg :: "f64 \<Rightarrow> f64" where
  "fneg (Fin a) = Fin (- a)"
| "fneg PInf = NInf"
| "fneg NInf = PInf"
| "fneg NaN = NaN"

fun fsub :: "f64 \<Rightarrow> f64 \<Rightarrow> f64" where
  "fsub NaN _ = NaN"
| "fsub _ NaN = NaN"
| "fsub (Fin a) (Fin b) = round_f64 (a - b)"
| "fsub (Fin a) PInf = NInf"
| "fsub (Fin a) NInf = PInf"
| "fsub PInf (Fin b) = PInf"
| "fsub NInf (Fin b) = NInf"
| "fsub PInf PInf = NaN"
| "fsub PInf NInf = PInf"
| "fsub NInf PInf = NInf"
| "fsub NInf NInf = NaN"

fun fmul :: "f64 \<Rightarrow> f64 \<Rightarrow> f64" where
  "fmul NaN _ = NaN"
| "fmul _ NaN = NaN"
| "fmul (Fin a) (Fin b) = round_f64 (a * b)"
| "fmul (Fin a) PInf = (if a = 0 then NaN else if 0 < a then PInf else NInf)"
| "fmul (Fin a) NInf = (if a = 0 then NaN else if 0 < a then NInf else PInf)"
| "fmul PInf (Fin b) = (if b = 0 then NaN else if 0 < b then PInf else NInf)"
| "fmul NInf (Fin b) = (if b = 0 then NaN else if 0 < b then NInf else PInf)"
| "fmul PInf PInf = PInf"
| "fmul PInf NInf = NInf"
| "fmul NInf PInf = NInf"
| "fmul NInf NInf = PInf"

text \<open>
  Division of float columns never raises: \<open>0/0\<close> is \<open>NaN\<close> and \<open>x/0\<close> is an infinity
  with the sign of \<open>x\<close>.
\<close>

fun fdiv :: "f64 \<Rightarrow> f64 \<Rightarrow> f64" where
  "fdiv NaN _ = NaN"
| "fdiv _ NaN = NaN"
| "fdiv (Fin a) (Fin b) =
     (if b = 0 then (if a = 0 then NaN else if 0 < a then PInf else NInf)
      else round_f64 (a / b))"
| "fdiv (Fin a) PInf = Fin 0"
| "fdiv (Fin a) NInf = Fin 0"
| "fdiv PInf (Fin b) = (if 0 \<le> b then PInf else NInf)"
| "fdiv NInf (Fin b) = (if 0 \<le> b then NInf else PInf)"
| "fdiv PInf PInf = NaN"
| "fdiv PInf NInf = NaN"
| "fdiv NInf PInf = NaN"
| "fdiv NInf NInf = NaN"

text \<open>The order of the values that are not \<open>NaN\<close>.\<close>

fun f64_le :: "f64 \<Rightarrow> f64 \<Rightarrow> bool" where
  "f64_le NaN _ = False"
| "f64_le _ NaN = False"
| "f64_le NInf _ = True"
| "f64_le _ PInf = True"
| "f64_le (Fin a) (Fin b) = (a \<le> b)"
| "f64_le (Fin a) NInf = False"
| "f64_le PInf (Fin b) = False"
| "f64_le PInf NInf = False"

definition f64_of_int :: "int \<Rightarrow> f64" where
  "f64_of_int i = round_f64 (of_int i)"

definition f64_of_nat :: "nat \<Rightarrow> f64" where
  "f64_of_nat n = f64_of_int (int n)"

text \<open>\<open>a / b\<close> on two integer columns: both operands become float64, then divide.\<close>

definition series_div :: "nat \<Rightarrow> nat \<Rightarrow> f64" where
  "series_div a b = fdiv (f64_of_nat a) (f64_of_nat b)"

text \<open>\<open>Series.fillna(0)\<close> replaces the missing value only: an infinity stays.\<close>

definition fillna0 :: "f64 \<Rightarrow> f64" where
  "fillna0 x = (if x = NaN then Fin 0 else x)"

text \<open>The sum of two finite values as a number, for statements about two columns.\<close>

fun fin_sum :: "f64 \<Rightarrow> f64 \<Rightarrow> rat option" where
  "fin_sum (Fin a) (Fin b) = Some (a + b)"
| "fin_sum _ _ = None"

section \<open>The pandas operations the scripts call\<close>

subsection \<open>groupby(key).agg(sum).reset_index()\<close>

text \<open>
  A table is a list of rows; a column is a function on rows. A cell of a count column
  is \<open>Some n\<close> or \<open>None\<close> (blank), a cell of the key column \<open>Some k\<close> or \<open>None\<close>.
  The scripts call \<open>groupby\<close> with its defaults \<open>sort=True\<close> and \<open>dropna=True\<close>:
  the groups come out in ascending order of their keys, and a row whose key is
  missing belongs to no group. \<open>sum\<close> skips blank cells.
\<close>

definition group_keys :: "('r \<Rightarrow> 'k::linorder option) \<Rightarrow> 'r list \<Rightarrow> 'k list" where
  "group_keys key df = sort (remdups (List.map_filter key df))"

definition col_sum :: "('r \<Rightarrow> nat option) \<Rightarrow> 'r list \<Rightarrow> nat" where
  "col_sum col df = sum_list (map (\<lambda>r. case col r of None \<Rightarrow> 0 | Some v \<Rightarrow> v) df)"

definition groupby_sum2 ::
  "('r \<Rightarrow> 'k::linorder option) \<Rightarrow> ('r \<Rightarrow> nat option) \<Rightarrow> ('r \<Rightarrow> nat option) \<Rightarrow> 'r list
     \<Rightarrow> ('k \<times> nat \<times> nat) list" where
  "groupby_sum2 key c1 c2 df =
     map (\<lambda>k. (k, col_sum c1 (filter (\<lambda>r. key r = Some k) df),
                  col_sum c2 (filter (\<lambda>r. key r = Some k) df)))
         (group_keys key df)"

text \<open>
  The order the specification asks of the groups, for comparison: each distinct key
  at the place of its first occurrence.
\<close>

definition first_occurrence_order :: "'k list \<Rightarrow> 'k list" where
  "first_occurrence_order ks = rev (remdups (rev ks))"

subsection \<open>sort_values(by, ascending) and head(n)\<close>

text \<open>
  The scripts call \<open>sort_values\<close> with its defaults \<open>kind='quicksort'\<close> and
  \<open>na_position='last'\<close>. What that call promises is a permutation of the rows in the
  order of the column, missing values last in both directions; quicksort is not a
  stable algorithm, so the order among rows of equal value is whatever the sorting
  routine leaves. \<open>is_sort_values ascending by df out\<close> holds of every output the call
  may give.
\<close>

definition key_before :: "bool \<Rightarrow> f64 \<Rightarrow> f64 \<Rightarrow> bool" where
  "key_before ascending a b =
     (if b = NaN then True else if a = NaN then False
      else if ascending then f64_le a b else f64_le b a)"

definition is_sort_values :: "bool \<Rightarrow> ('r \<Rightarrow> f64) \<Rightarrow> 'r list \<Rightarrow> 'r list \<Rightarrow> bool" where
  "is_sort_values ascending by df out \<longleftrightarrow>
     mset out = mset df \<and> sorted_wrt (\<lambda>a b. key_before ascending (by a) (by b)) out"

definition head :: "nat \<Rightarrow> 'r list \<Rightarrow> 'r list" where
  "head n df = take n df"



subsection \<open>merge(left, right, on=key)\<close>

text \<open>
  \<open>how\<close> defaults to \<open>'inner'\<close>: a row for each pair of a left and a right row with
  the same key, in the order of the left rows. With \<open>how='left'\<close> a left row without a
  partner stays, its right-hand value missing.
\<close>

definition merge_inner :: "('k \<times> 'a) list \<Rightarrow> ('k \<times> 'b) list \<Rightarrow> ('k \<times> 'a \<times> 'b) list" where
  "merge_inner left right =
     concat (map (\<lambda>(k, a). map (\<lambda>(k', b). (k, a, b)) (filter (\<lambda>(k', b). k' = k) right)) left)"

definition merge_left :: "('k \<times> 'a) list \<Rightarrow> ('k \<times> f64) list \<Rightarrow> ('k \<times> 'a \<times> f64) list" where
  "merge_left left right =
     concat (map (\<lambda>(k, a).
        (case filter (\<lambda>(k', b). k' = k) right of
           [] \<Rightarrow> [(k, a, NaN)]
         | ms \<Rightarrow> map (\<lambda>(k', b). (k, a, b)) ms)) left)"


section \<open>Column names\<close>

text \<open>
  A Python string is a list of Unicode code points. The case mapping and the
  compatibility decomposition are written out for the Latin-1 range, which holds the
  Portuguese headers of the spreadsheets; a code point from 256 on has, in this model,
  no case mapping and no ASCII letter in its decomposition.
\<close>

type_synonym ustr = "nat list"

definition u :: "string \<Rightarrow> ustr" where
  "u s = map of_char s"

definition lower_cp :: "nat \<Rightarrow> nat" where
  "lower_cp c = (if (65 \<le> c \<and> c \<le> 90) \<or> (192 \<le> c \<and> c \<le> 222 \<and> c \<noteq> 215) then c + 32 else c)"

definition py_lower :: "ustr \<Rightarrow> ustr" where
  "py_lower s = map lower_cp s"

text \<open>The code points \<open>str.isspace\<close> accepts, which \<open>str.strip()\<close> removes at both ends.\<close>

definition is_space :: "nat \<Rightarrow> bool" where
  "is_space c \<longleftrightarrow>
     (9 \<le> c \<and> c \<le> 13) \<or> (28 \<le> c \<and> c \<le> 32) \<or> c = 133 \<or> c = 160 \<or> c = 5760 \<or>
     (8192 \<le> c \<and> c \<le> 8202) \<or> c = 8232 \<or> c = 8233 \<or> c = 8239 \<or> c = 8287 \<or> c = 12288"

definition py_strip :: "ustr \<Rightarrow> ustr" where
  "py_strip s = rev (dropWhile is_space (rev (dropWhile is_space s)))"

definition replace_space :: "ustr \<Rightarrow> ustr" where
  "replace_space s = map (\<lambda>c. if c = 32 then 95 else c) s"

text \<open>
  \<open>normalize('NFKD')\<close>, \<open>encode('ascii', errors='ignore')\<close>, \<open>decode('utf-8')\<close>: every
  code point is decomposed and only the ASCII code points of the decomposition are
  kept. An accented letter leaves its base letter, the ordinal indicators leave
  \<open>a\<close> and \<open>o\<close>, the superscripts and fractions their digits, the spacing accents and
  the no-break space a space; every other code point above 127 leaves nothing.
\<close>

definition nfkd_ascii :: "nat \<Rightarrow> ustr" where
  "nfkd_ascii c =
     (if c < 128 then [c]
      else if c = 160 \<or> c = 168 \<or> c = 175 \<or> c = 180 \<or> c = 184 then [32]
      else if c = 170 then [97]
      else if c = 186 then [111]
      else if c = 178 then [50]
      else if c = 179 then [51]
      else if c = 185 then [49]
      else if c = 188 then [49, 52]
      else if c = 189 then [49, 50]
      else if c = 190 then [51, 52]
      else if 192 \<le> c \<and> c \<le> 197 then [65]
      else if c = 199 then [67]
      else if 200 \<le> c \<and> c \<le> 203 then [69]
      else if 204 \<le> c \<and> c \<le> 207 then [73]
      else if c = 209 then [78]
      else if 210 \<le> c \<and> c \<le> 214 then [79]
      else if 217 \<le> c \<and> c \<le> 220 then [85]
      else if c = 221 then [89]
      else if 224 \<le> c \<and> c \<le> 229 then [97]
      else if c = 231 then [99]
      else if 232 \<le> c \<and> c \<le> 235 then [101]
      else if 236 \<le> c \<and> c \<le> 239 then [105]
      else if c = 241 then [110]
      else if 242 \<le> c \<and> c \<le> 246 then [111]
      else if 249 \<le> c \<and> c \<le> 252 then [117]
      else if c = 253 \<or> c = 255 then [121]
      else [])"

definition ascii_fold :: "ustr \<Rightarrow> ustr" where
  "ascii_fold s = concat (map nfkd_ascii s)"

datatype py_error = IndexError | KeyError | TypeError | ValueError

subsection \<open>prenatal_ultrassonografia.py: find\_column\<close>

text \<open>
  The candidates are tried in order; for the first one that some column contains
  (both lower-cased) the first such column, in column order, is returned. When no
  candidate matches, the function returns \<open>None\<close>.
\<close>

fun find_column :: "ustr list \<Rightarrow> ustr list \<Rightarrow> ustr option" where
  "find_column columns [] = None"
| "find_column columns (pattern # patterns) =
     (case filter (\<lambda>col. sublist (py_lower pattern) (py_lower col)) columns of
        [] \<Rightarrow> find_column columns patterns
      | col # _ \<Rightarrow> Some col)"

subsection \<open>analise_gap_tecnologico.py: clean\_column\_names\<close>

definition clean_column_name :: "ustr \<Rightarrow> ustr" where
  "clean_column_name c = ascii_fold (replace_space (py_lower (py_strip c)))"

definition clean_column_names :: "ustr list \<Rightarrow> ustr list" where
  "clean_column_names columns = map clean_column_name columns"

text \<open>
  The scripts that clean the headers first pick a column with
  \<open>[col for col in df.columns if 'dsei' in col][0]\<close>: the first column that passes
  the test, and an \<open>IndexError\<close> from the empty list when none does.
\<close>

definition first_col :: "(ustr \<Rightarrow> bool) \<Rightarrow> ustr list \<Rightarrow> py_error + ustr" where
  "first_col test columns =
     (case filter test columns of [] \<Rightarrow> Inl IndexError | col # _ \<Rightarrow> Inr col)"

definition dsei_col :: "ustr list \<Rightarrow> py_error + ustr" where
  "dsei_col columns = first_col (\<lambda>col. sublist (u ''dsei'') col) columns"

subsection \<open>graficos_cobertura_prenatal.py: the columns of gerar\_resumo\_estatistico\<close>

text \<open>
  Four columns are picked one after the other; the first that is missing raises the
  \<open>IndexError\<close>, which nothing in the script catches.
\<close>

definition gerar_resumo_colunas :: "ustr list \<Rightarrow> py_error + (ustr \<times> ustr \<times> ustr \<times> ustr)" where
  "gerar_resumo_colunas columns =
     (case first_col (\<lambda>col. sublist (u ''dsei'') (py_lower col)) columns of
        Inl e \<Rightarrow> Inl e
      | Inr dsei \<Rightarrow>
     (case first_col (\<lambda>col. sublist (u ''gestante'') (py_lower col)) columns of
        Inl e \<Rightarrow> Inl e
      | Inr gestantes \<Rightarrow>
     (case first_col (\<lambda>col. sublist (u ''6_ou_mais'') (py_lower col)
                           \<or> sublist [8805, 54] (py_lower col)) columns of
        Inl e \<Rightarrow> Inl e
      | Inr consultas \<Rightarrow>
     (case first_col (\<lambda>col. sublist (u ''ano'') (py_lower col)) columns of
        Inl e \<Rightarrow> Inl e
      | Inr ano \<Rightarrow> Inr (dsei, gestantes, consultas, ano)))))"

section \<open>The tables of counts\<close>

text \<open>
  A row of a prenatal or of an ultrasound spreadsheet, once its columns are found:
  the district (\<open>DSEI_GESTAO\<close>), the number of pregnant women (the column
  \<open>N. GESTANTES\<close>), the count of the indicator (\<open>6 OU MAIS CONSULTAS\<close> in a prenatal
  table, \<open>COM ACESSO AO EXAME DE ULTRASSOM\<close> in an ultrasound table) and the year the
  scripts add as column \<open>ano\<close>. Counts are natural numbers; a blank cell is \<open>None\<close>.
\<close>

record linha =
  DSEI_GESTAO :: "string option"
  GESTANTES :: "nat option"
  CONTAGEM :: "nat option"
  ano :: nat

text \<open>A row of a deaths spreadsheet, with the four column names the script assigns.\<close>

record obito =
  DSEI :: "string option"
  NASCIDOS_VIVOS :: "nat option"
  OBITOS_MATERNOS :: "nat option"
  OBITOS_INFANTIS :: "nat option"

definition dropna_key :: "('r \<Rightarrow> 'k option) \<Rightarrow> 'r list \<Rightarrow> 'r list" where
  "dropna_key key df = filter (\<lambda>r. key r \<noteq> None) df"


text \<open>A cell divided by a cell: a blank operand gives the missing value.\<close>

definition cell_div :: "nat option \<Rightarrow> nat option \<Rightarrow> f64" where
  "cell_div a b = (case (a, b) of (Some x, Some y) \<Rightarrow> series_div x y | _ \<Rightarrow> NaN)"

section \<open>prenatal_ultrassonografia.py\<close>

text \<open>
  \<open>process_prenatal_data\<close> looks its three columns up with \<open>find_column\<close>, sums the
  two counts per district, divides and fills the missing ratios with zero. A column
  that is not found is \<open>None\<close>: \<open>groupby(None)\<close> raises a \<open>TypeError\<close>, \<open>agg\<close> with the
  key \<open>None\<close> a \<open>KeyError\<close>. A result row is the district, the two sums and the
  coverage.
\<close>

definition cobertura :: "string \<times> nat \<times> nat \<times> f64 \<Rightarrow> f64" where
  "cobertura r = snd (snd (snd r))"

definition grouped_cobertura_fillna :: "linha list \<Rightarrow> (string \<times> nat \<times> nat \<times> f64) list" where
  "grouped_cobertura_fillna df =
     map (\<lambda>(k, g, c). (k, g, c, fillna0 (series_div c g)))
         (groupby_sum2 DSEI_GESTAO GESTANTES CONTAGEM df)"

definition process_data ::
  "ustr list \<Rightarrow> ustr list \<Rightarrow> linha list \<Rightarrow> py_error + (string \<times> nat \<times> nat \<times> f64) list" where
  "process_data columns count_patterns df =
     (case find_column columns [u ''dsei'', u ''dsei_gestao''] of
        None \<Rightarrow> Inl TypeError
      | Some _ \<Rightarrow>
          (case find_column columns [u ''gestante'', [110, 186] @ u '' gestantes''] of
             None \<Rightarrow> Inl KeyError
           | Some _ \<Rightarrow>
               (case find_column columns count_patterns of
                  None \<Rightarrow> Inl KeyError
                | Some _ \<Rightarrow> Inr (grouped_cobertura_fillna df))))"

definition process_prenatal_data ::
  "ustr list \<Rightarrow> linha list \<Rightarrow> py_error + (string \<times> nat \<times> nat \<times> f64) list" where
  "process_prenatal_data columns df =
     process_data columns [u ''6 ou mais'', u ''6_ou_mais'', [8805, 54]] df"

definition process_ultrassom_data ::
  "ustr list \<Rightarrow> linha list \<Rightarrow> py_error + (string \<times> nat \<times> nat \<times> f64) list" where
  "process_ultrassom_data columns df =
     process_data columns [u ''ultrassom'', u ''acesso ao exame''] df"

text \<open>
  \<open>generate_graph\<close> processes the prenatal table and then the ultrasound table of
  one year, and plots the first five rows of each sorted by falling coverage:
  \<open>head 5 out\<close> for an \<open>out\<close> with \<open>is_sort_values False cobertura data out\<close>. The
  script calls it for 2022 and then for 2023, at top level and outside any \<open>try\<close>:
  the first exception ends the run. A table is its header and its rows.
\<close>

definition generate_graph ::
  "ustr list \<times> linha list \<Rightarrow> ustr list \<times> linha list
     \<Rightarrow> py_error + ((string \<times> nat \<times> nat \<times> f64) list \<times> (string \<times> nat \<times> nat \<times> f64) list)" where
  "generate_graph df_prenatal df_ultrassom =
     (case process_prenatal_data (fst df_prenatal) (snd df_prenatal) of
        Inl e \<Rightarrow> Inl e
      | Inr prenatal_data \<Rightarrow>
          (case process_ultrassom_data (fst df_ultrassom) (snd df_ultrassom) of
             Inl e \<Rightarrow> Inl e
           | Inr ultrassom_data \<Rightarrow> Inr (prenatal_data, ultrassom_data)))"

definition gerar_graficos ::
  "ustr list \<times> linha list \<Rightarrow> ustr list \<times> linha list \<Rightarrow> ustr list \<times> linha list
     \<Rightarrow> ustr list \<times> linha list \<Rightarrow> py_error + unit" where
  "gerar_graficos df_prenatal_2022 df_ultrassom_2022 df_prenatal_2023 df_ultrassom_2023 =
     (case generate_graph df_prenatal_2022 df_ultrassom_2022 of
        Inl e \<Rightarrow> Inl e
      | Inr _ \<Rightarrow>
          (case generate_graph df_prenatal_2023 df_ultrassom_2023 of
             Inl e \<Rightarrow> Inl e
           | Inr _ \<Rightarrow> Inr ()))"

section \<open>ultrassons.py\<close>

text \<open>
  \<open>ultrassom_coverage_analysis\<close> works row by row: it drops the rows with a blank
  district or count, keeps those with a positive number of pregnant women, and only
  then divides.
\<close>

definition ultrassom_validos :: "linha list \<Rightarrow> linha list" where
  "ultrassom_validos df =
     filter (\<lambda>r. case GESTANTES r of Some g \<Rightarrow> 0 < g | None \<Rightarrow> False)
       (filter (\<lambda>r. DSEI_GESTAO r \<noteq> None \<and> GESTANTES r \<noteq> None \<and> CONTAGEM r \<noteq> None) df)"

definition ultrassom_cobertura :: "linha \<Rightarrow> f64" where
  "ultrassom_cobertura r = cell_div (CONTAGEM r) (GESTANTES r)"

section \<open>graficos_cobertura_prenatal.py\<close>




text \<open>
  \<open>comparar_evolucao_cobertura\<close> sums per district and year, divides, and pivots the
  years into columns: the cell of a district and a year is the coverage of that group,
  and missing when the district has no row of that year. When both 2022 and 2023 are
  columns of the pivot, the districts with a missing cell in either are dropped and
  the relative change, in percent, is computed for the others.
\<close>

definition anos :: "linha list \<Rightarrow> nat list" where
  "anos df = sort (remdups (map ano (dropna_key DSEI_GESTAO df)))"

definition pivot_cobertura :: "linha list \<Rightarrow> string \<Rightarrow> nat \<Rightarrow> f64" where
  "pivot_cobertura df k a =
     (case filter (\<lambda>r. DSEI_GESTAO r = Some k \<and> ano r = a) df of
        [] \<Rightarrow> NaN
      | g \<Rightarrow> series_div (col_sum CONTAGEM g) (col_sum GESTANTES g))"

definition variacao :: "f64 \<Rightarrow> f64 \<Rightarrow> f64" where
  "variacao c2022 c2023 = fmul (fdiv (fsub c2023 c2022) c2022) (Fin 100)"

definition comparar_evolucao_cobertura ::
  "linha list \<Rightarrow> (string \<times> f64 \<times> f64 \<times> f64) list option" where
  "comparar_evolucao_cobertura df_prenatal =
     (if 2022 \<in> set (anos df_prenatal) \<and> 2023 \<in> set (anos df_prenatal)
      then Some
        (map (\<lambda>k. (k, pivot_cobertura df_prenatal k 2022, pivot_cobertura df_prenatal k 2023,
                    variacao (pivot_cobertura df_prenatal k 2022)
                             (pivot_cobertura df_prenatal k 2023)))
           (filter (\<lambda>k. pivot_cobertura df_prenatal k 2022 \<noteq> NaN
                       \<and> pivot_cobertura df_prenatal k 2023 \<noteq> NaN)
              (group_keys DSEI_GESTAO df_prenatal)))
      else None)"

text \<open>
  The change the specification describes, for comparison: the ratio itself, not in
  percent, and missing when the earlier coverage is zero or missing.
\<close>

definition relative_change :: "f64 \<Rightarrow> f64 \<Rightarrow> f64" where
  "relative_change earlier later =
     (if earlier = NaN \<or> earlier = Fin 0 then NaN else fdiv (fsub later earlier) earlier)"

section \<open>analise_gap_tecnologico.py\<close>

text \<open>
  \<open>create_heatmap_comparison\<close> concatenates the two years of each indicator, sums
  per district, divides, merges the two coverage tables on the district and subtracts.
  The table it returns is this one sorted by falling gap.
\<close>

definition cobertura_por_dsei :: "linha list \<Rightarrow> (string \<times> f64) list" where
  "cobertura_por_dsei df =
     map (\<lambda>(k, g, c). (k, series_div c g)) (groupby_sum2 DSEI_GESTAO GESTANTES CONTAGEM df)"

text \<open>The coverage of one district of a table: the sum of its counts over the sum of
  its pregnant women.\<close>

definition cobertura_de :: "linha list \<Rightarrow> string \<Rightarrow> f64" where
  "cobertura_de df k =
     series_div (col_sum CONTAGEM (filter (\<lambda>r. DSEI_GESTAO r = Some k) df))
                (col_sum GESTANTES (filter (\<lambda>r. DSEI_GESTAO r = Some k) df))"

definition gap_df :: "('k \<times> f64) list \<Rightarrow> ('k \<times> f64) list \<Rightarrow> ('k \<times> f64 \<times> f64 \<times> f64) list" where
  "gap_df left right = map (\<lambda>(k, a, b). (k, a, b, fsub a b)) (merge_inner left right)"

definition create_heatmap_comparison_df ::
  "linha list \<Rightarrow> linha list \<Rightarrow> linha list \<Rightarrow> linha list \<Rightarrow> (string \<times> f64 \<times> f64 \<times> f64) list" where
  "create_heatmap_comparison_df prenatal_2022 prenatal_2023 ultrassom_2022 ultrassom_2023 =
     gap_df (cobertura_por_dsei (prenatal_2022 @ prenatal_2023))
            (cobertura_por_dsei (ultrassom_2022 @ ultrassom_2023))"

text \<open>The table returned is an \<open>out\<close> with \<open>is_sort_values False gap df out\<close>.\<close>

definition gap :: "'k \<times> f64 \<times> f64 \<times> f64 \<Rightarrow> f64" where
  "gap r = snd (snd (snd r))"

section \<open>prenatal_mortalidade.py\<close>

text \<open>
  The prenatal rows without a district are dropped, the two years concatenated and
  summed per district; the coverage is in percent. The deaths tables are summed per
  district and two rates per thousand live births are derived from the sums: the
  difference of the two integer sums is taken first, then both operands of the
  division become float64.
\<close>

definition prenatal_grouped :: "linha list \<Rightarrow> linha list \<Rightarrow> (string \<times> nat \<times> nat \<times> f64) list" where
  "prenatal_grouped prenatal_2022 prenatal_2023 =
     map (\<lambda>(k, g, c). (k, g, c, fmul (series_div c g) (Fin 100)))
         (groupby_sum2 DSEI_GESTAO GESTANTES CONTAGEM
            (dropna_key DSEI_GESTAO prenatal_2022 @ dropna_key DSEI_GESTAO prenatal_2023))"

definition sobrevivencia :: "nat \<Rightarrow> nat \<Rightarrow> f64" where
  "sobrevivencia nascidos obitos =
     fmul (fdiv (f64_of_int (int nascidos - int obitos)) (f64_of_nat nascidos)) (Fin 1000)"

definition mortalidade :: "nat \<Rightarrow> nat \<Rightarrow> f64" where
  "mortalidade nascidos obitos = fmul (series_div obitos nascidos) (Fin 1000)"

definition obitos_grouped :: "obito list \<Rightarrow> obito list \<Rightarrow> (string \<times> nat \<times> nat \<times> f64 \<times> f64) list" where
  "obitos_grouped obitos_2022 obitos_2023 =
     map (\<lambda>(k, n, i). (k, n, i, sobrevivencia n i, mortalidade n i))
         (groupby_sum2 DSEI NASCIDOS_VIVOS OBITOS_INFANTIS (obitos_2022 @ obitos_2023))"

section \<open>mapa_desigualdades.py\<close>

text \<open>
  \<open>calcular_cobertura\<close> does not sum: it divides row by row, in percent, and merges
  the ultrasound coverage onto the prenatal rows with \<open>how='left'\<close>. The keys of a
  merge are the cells themselves, so two blank districts match.
\<close>

definition calcular_cobertura ::
  "linha list \<Rightarrow> linha list \<Rightarrow> nat
     \<Rightarrow> (string option \<times> (nat option \<times> nat option \<times> f64) \<times> f64 \<times> nat) list" where
  "calcular_cobertura df_prenatal df_ultrassom a =
     map (\<lambda>(k, p, c). (k, p, c, a))
       (merge_left
          (map (\<lambda>r. (DSEI_GESTAO r, (GESTANTES r, CONTAGEM r,
                       fmul (cell_div (CONTAGEM r) (GESTANTES r)) (Fin 100)))) df_prenatal)
          (map (\<lambda>r. (DSEI_GESTAO r, fmul (cell_div (CONTAGEM r) (GESTANTES r)) (Fin 100)))
               df_ultrassom))"

chapter \<open>Properties\<close>

section \<open>Rounding\<close>

lemma bitlen_powi_bounds:
  assumes "0 < p"
  shows "(2::rat) powi (bitlen p - 1) \<le> of_int p" and "of_int p < (2::rat) powi bitlen p"
proof -
  have b1: "1 \<le> bitlen p"
    using assms bitlen_eq_zero_iff [of p] bitlen_nonneg [of p] by linarith
  have lo: "2 ^ nat (bitlen p - 1) \<le> p" and hi: "p < 2 ^ nat (bitlen p)"
    using bitlen_bounds [OF assms] by simp_all
  have "(of_int (2 ^ nat (bitlen p - 1)) :: rat) \<le> of_int p"
    using lo by (simp only: of_int_le_iff)
  then show "(2::rat) powi (bitlen p - 1) \<le> of_int p"
    using b1 by (simp add: power_int_nonneg_exp)
  have "(of_int p :: rat) < of_int (2 ^ nat (bitlen p))"
    using hi by (simp only: of_int_less_iff)
  then show "of_int p < (2::rat) powi bitlen p"
    using b1 by (simp add: power_int_nonneg_exp)
qed

lemma ilog2_bounds:
  assumes "0 < x"
  shows "2 powi ilog2 x \<le> x" and "x < 2 powi (ilog2 x + 1)"
proof -
  obtain p q where pq: "quotient_of x = (p, q)" by force
  have q: "0 < q" using quotient_of_denom_pos [OF pq] .
  have x: "x = of_int p / of_int q" using quotient_of_div [OF pq] .
  have p: "0 < p" using assms q by (simp add: x zero_less_divide_iff)
  define k where "k = bitlen p - bitlen q"
  have P: "(2::rat) powi (bitlen p - 1) \<le> of_int p" "of_int p < (2::rat) powi bitlen p"
    using bitlen_powi_bounds [OF p] by simp_all
  have Q: "(2::rat) powi (bitlen q - 1) \<le> of_int q" "of_int q < (2::rat) powi bitlen q"
    using bitlen_powi_bounds [OF q] by simp_all
  have "x < 2 powi bitlen p / 2 powi (bitlen q - 1)"
    unfolding x using P(2) Q(1) p by (intro frac_less) simp_all
  also have "\<dots> = 2 powi (k + 1)"
    by (simp add: k_def power_int_diff [symmetric] algebra_simps)
  finally have up: "x < 2 powi (k + 1)" .
  have "2 powi (bitlen p - 1) / 2 powi bitlen q < x"
    unfolding x using P(1) Q(2) q by (intro frac_less2) simp_all
  moreover have "2 powi (bitlen p - 1) / 2 powi bitlen q = (2::rat) powi (k - 1)"
    by (simp add: k_def power_int_diff [symmetric] algebra_simps)
  ultimately have lo: "2 powi (k - 1) < x" by simp
  have il: "ilog2 x = (if 2 powi k \<le> x then k else k - 1)"
    by (simp add: ilog2_def pq k_def)
  show "2 powi ilog2 x \<le> x" using lo by (simp add: il)
  show "x < 2 powi (ilog2 x + 1)" using up by (simp add: il)
qed

lemma ilog2_unique:
  assumes "0 < x" "2 powi e \<le> x" "x < 2 powi (e + 1)"
  shows "ilog2 x = e"
proof -
  have lt: "(2::rat) powi ilog2 x < 2 powi (e + 1)"
    using ilog2_bounds(1) [OF assms(1)] assms(3) by linarith
  have a: "ilog2 x < e + 1"
  proof (rule ccontr)
    assume "\<not> ilog2 x < e + 1"
    then have "(2::rat) powi (e + 1) \<le> 2 powi ilog2 x"
      by (intro power_int_increasing) simp_all
    with lt show False by linarith
  qed
  have lt2: "(2::rat) powi e < 2 powi (ilog2 x + 1)"
    using ilog2_bounds(2) [OF assms(1)] assms(2) by linarith
  have b: "e < ilog2 x + 1"
  proof (rule ccontr)
    assume "\<not> e < ilog2 x + 1"
    then have "(2::rat) powi (ilog2 x + 1) \<le> 2 powi e"
      by (intro power_int_increasing) simp_all
    with lt2 show False by linarith
  qed
  from a b show ?thesis by simp
qed

lemma round_half_even_err: "\<bar>of_int (round_half_even m) - m\<bar> \<le> 1 / 2"
proof -
  have "of_int \<lfloor>m\<rfloor> \<le> m" "m < of_int \<lfloor>m\<rfloor> + 1" by linarith+
  then show ?thesis
    by (auto simp: round_half_even_def Let_def abs_le_iff)
qed

lemma round_half_even_unique:
  assumes "\<bar>m - of_int n\<bar> < 1 / 2"
  shows "round_half_even m = n"
proof (cases "of_int n \<le> m")
  case True
  then have f: "\<lfloor>m\<rfloor> = n" using assms by (intro floor_unique) (simp_all add: abs_less_iff)
  show ?thesis using assms True by (simp add: round_half_even_def f Let_def abs_less_iff)
next
  case False
  then have f: "\<lfloor>m\<rfloor> = n - 1" using assms by (intro floor_unique) (simp_all add: abs_less_iff)
  show ?thesis using assms False by (simp add: round_half_even_def f Let_def abs_less_iff)
qed

lemma round_f64_eqI:
  assumes x: "0 < x" and lo: "2 powi e \<le> x" and hi: "x < 2 powi (e + 1)"
    and e: "- 1022 \<le> e" "e < 1023"
    and n: "\<bar>x / 2 powi (e - 52) - of_int n\<bar> < 1 / 2"
  shows "round_f64 x = Fin (of_int n * 2 powi (e - 52))"
proof -
  have il: "ilog2 \<bar>x\<bar> = e" using ilog2_unique [OF x lo hi] x by simp
  have rh: "round_half_even (x / 2 powi (e - 52)) = n" using round_half_even_unique [OF n] .
  have u: "(0::rat) < 2 powi (e - 52)" by simp
  have "x / 2 powi (e - 52) < 2 powi (e + 1) / 2 powi (e - 52)"
    using hi u by (simp add: divide_strict_right_mono)
  also have "\<dots> = 2 powi (e + 1 - (e - 52))" by (rule power_int_diff [symmetric]) simp
  also have "e + 1 - (e - 52) = 53" by simp
  finally have m53: "x / 2 powi (e - 52) < 2 powi 53" .
  have "of_int n - x / 2 powi (e - 52) < 1 / 2" using n by linarith
  with m53 have "of_int n < (2::rat) powi 53 + 1 / 2" by linarith
  then have "of_int n < (of_int (2 ^ 53 + 1) :: rat)" by simp
  then have "n < 2 ^ 53 + 1" by (simp only: of_int_less_iff)
  then have "(of_int n :: rat) \<le> 2 powi 53" by simp
  then have "of_int n * 2 powi (e - 52) \<le> 2 powi 53 * (2::rat) powi (e - 52)"
    using u by (simp add: mult_right_mono)
  also have "\<dots> = 2 powi (53 + (e - 52))" by (rule power_int_add [symmetric]) simp
  also have "53 + (e - 52) = e + 1" by simp
  also have "(2::rat) powi (e + 1) \<le> 2 powi 1023" using e by (intro power_int_increasing) simp_all
  also have "\<dots> < (2::rat) powi 1024" by (intro power_int_strict_increasing) simp_all
  finally have "\<not> 2 powi 1024 \<le> of_int n * (2::rat) powi (e - 52)" by simp
  then show ?thesis using x e il rh by (simp add: round_f64_def Let_def max_def)
qed

lemma round_f64_uminus: "round_f64 (- x) = fneg (round_f64 x)"
  by (simp add: round_f64_def Let_def)

lemma round_f64_rel_err:
  assumes lo: "2 powi (- 1022) \<le> \<bar>x\<bar>" and hi: "\<bar>x\<bar> < 2 powi 1023"
  shows "\<exists>r. round_f64 x = Fin r \<and> \<bar>r - x\<bar> \<le> \<bar>x\<bar> / 2 ^ 53"
proof -
  have xpos: "0 < \<bar>x\<bar>" using lo zero_less_power_int [of "2::rat" "- 1022"] by linarith
  then have x0: "x \<noteq> 0" by simp
  define e where "e = ilog2 \<bar>x\<bar>"
  have eb: "2 powi e \<le> \<bar>x\<bar>" "\<bar>x\<bar> < 2 powi (e + 1)"
    using ilog2_bounds [OF xpos] by (simp_all add: e_def)
  have e_lo: "- 1022 \<le> e"
  proof (rule ccontr)
    assume "\<not> - 1022 \<le> e"
    then have "(2::rat) powi (e + 1) \<le> 2 powi (- 1022)"
      by (intro power_int_increasing) simp_all
    with eb(2) lo show False by linarith
  qed
  define ulp :: rat where "ulp = 2 powi (e - 52)"
  define n where "n = round_half_even (\<bar>x\<bar> / ulp)"
  define r where "r = of_int n * ulp"
  have u: "0 < ulp" by (simp add: ulp_def)
  have "\<bar>of_int n - \<bar>x\<bar> / ulp\<bar> \<le> 1 / 2"
    unfolding n_def by (rule round_half_even_err)
  then have "\<bar>of_int n - \<bar>x\<bar> / ulp\<bar> * ulp \<le> 1 / 2 * ulp"
    using u by (intro mult_right_mono) simp_all
  moreover have "(of_int n - \<bar>x\<bar> / ulp) * ulp = r - \<bar>x\<bar>"
    using u by (simp add: r_def left_diff_distrib)
  then have "\<bar>of_int n - \<bar>x\<bar> / ulp\<bar> * ulp = \<bar>r - \<bar>x\<bar>\<bar>"
    using u by (metis abs_mult abs_of_pos)
  ultimately have err: "\<bar>r - \<bar>x\<bar>\<bar> \<le> ulp / 2" by simp
  have "ulp / 2 = 2 powi (e - 52) * 2 powi (- 1)" by (simp add: ulp_def)
  also have "\<dots> = 2 powi (e - 52 + - 1)" by (rule power_int_add [symmetric]) simp
  also have "e - 52 + - 1 = e + - 53" by simp
  also have "(2::rat) powi (e + - 53) = 2 powi e * 2 powi (- 53)" by (rule power_int_add) simp
  also have "\<dots> \<le> \<bar>x\<bar> * 2 powi (- 53)" using eb(1) by (intro mult_right_mono) simp_all
  also have "\<dots> = \<bar>x\<bar> / 2 ^ 53" by (simp add: power_int_minus_divide)
  finally have ulp2: "ulp / 2 \<le> \<bar>x\<bar> / 2 ^ 53" .
  have "r \<le> \<bar>x\<bar> + ulp / 2" using err by linarith
  also have "\<dots> \<le> \<bar>x\<bar> + \<bar>x\<bar> / 2 ^ 53" using ulp2 by simp
  also have "\<dots> \<le> \<bar>x\<bar> * 2" using xpos by simp
  also have "\<dots> < 2 powi 1023 * 2" using hi by simp
  also have "\<dots> = (2::rat) powi 1024" by simp
  finally have nov: "\<not> 2 powi 1024 \<le> r" by simp
  have rf: "round_f64 x = Fin (sgn x * r)"
    using x0 e_lo nov
    by (simp add: round_f64_def Let_def max_def e_def [symmetric] ulp_def [symmetric]
        n_def [symmetric] r_def [symmetric])
  have "sgn x * r - x = sgn x * (r - \<bar>x\<bar>)"
    by (simp add: right_diff_distrib sgn_mult_abs)
  then have "\<bar>sgn x * r - x\<bar> = \<bar>sgn x * (r - \<bar>x\<bar>)\<bar>" by simp
  also have "\<dots> = \<bar>r - \<bar>x\<bar>\<bar>" using x0 by (simp add: abs_mult abs_sgn_eq)
  finally have "\<bar>sgn x * r - x\<bar> \<le> \<bar>x\<bar> / 2 ^ 53" using err ulp2 by linarith
  with rf show ?thesis by blast
qed

lemma round_f64_zero: "round_f64 0 = Fin 0"
  by (simp add: round_f64_def)

lemma round_f64_err:
  assumes "x = 0 \<or> 2 powi (- 1022) \<le> \<bar>x\<bar>" and "\<bar>x\<bar> < 2 powi 1023"
  shows "\<exists>r. round_f64 x = Fin r \<and> \<bar>r - x\<bar> \<le> \<bar>x\<bar> / 2 ^ 53"
proof (cases "x = 0")
  case True
  then show ?thesis by (simp add: round_f64_zero)
next
  case False
  with assms show ?thesis by (intro round_f64_rel_err) simp_all
qed

lemma round_f64_of_nat_exact:
  assumes "k < 2 ^ 53"
  shows "round_f64 (of_nat k) = Fin (of_nat k)"
proof (cases "k = 0")
  case True
  then show ?thesis by (simp add: round_f64_zero)
next
  case False
  define x :: rat where "x = of_nat k"
  have x1: "1 \<le> x" using False by (simp add: x_def)
  then have xpos: "0 < x" by simp
  define e where "e = ilog2 x"
  have eb: "2 powi e \<le> x" "x < 2 powi (e + 1)"
    using ilog2_bounds [OF xpos] by (simp_all add: e_def)
  have e0: "0 \<le> e"
  proof (rule ccontr)
    assume "\<not> 0 \<le> e"
    then have "(2::rat) powi (e + 1) \<le> 2 powi 0" by (intro power_int_increasing) simp_all
    with eb(2) x1 show False by simp
  qed
  have xlt: "x < 2 powi 53" using assms unfolding x_def
    by (metis of_nat_less_iff of_nat_numeral of_nat_power power_int_numeral)
  have e52: "e \<le> 52"
  proof (rule ccontr)
    assume "\<not> e \<le> 52"
    then have "(2::rat) powi 53 \<le> 2 powi e" by (intro power_int_increasing) simp_all
    with eb(1) xlt show False by linarith
  qed
  define n :: int where "n = int k * 2 ^ nat (52 - e)"
  have p: "(2::rat) powi (e - 52) * 2 powi (52 - e) = 1"
    using power_int_add [of "2::rat" "e - 52" "52 - e"] by simp
  have q: "(2::rat) powi (52 - e) = 2 ^ nat (52 - e)"
    using e52 by (simp add: power_int_nonneg_exp)
  have nx: "of_int n = x / 2 powi (e - 52)"
    using p by (simp add: n_def x_def q [symmetric] field_simps)
  have "round_f64 x = Fin (of_int n * 2 powi (e - 52))"
    using e0 e52 by (intro round_f64_eqI [OF xpos eb]) (simp_all add: nx)
  also have "of_int n * 2 powi (e - 52) = x" by (simp add: nx)
  finally show ?thesis by (simp add: x_def)
qed

lemma f64_of_nat_exact: "k < 2 ^ 53 \<Longrightarrow> f64_of_nat k = Fin (of_nat k)"
  using round_f64_of_nat_exact [of k] by (simp add: f64_of_nat_def f64_of_int_def)

lemma f64_of_int_exact:
  assumes "\<bar>i\<bar> < 2 ^ 53"
  shows "f64_of_int i = Fin (of_int i)"
proof (cases "0 \<le> i")
  case True
  then have "nat i < 2 ^ 53" using assms by (simp add: nat_less_iff)
  from round_f64_of_nat_exact [OF this] True show ?thesis by (simp add: f64_of_int_def)
next
  case False
  then have "nat (- i) < 2 ^ 53" using assms by (simp add: nat_less_iff)
  from round_f64_of_nat_exact [OF this] False
  have "round_f64 (- of_int i) = Fin (- of_int i)" by simp
  then show ?thesis
    by (simp add: f64_of_int_def round_f64_uminus) (cases "round_f64 (of_int i)"; simp)
qed


lemma ratio_per_mil:
  fixes p :: int and q :: nat
  assumes p: "\<bar>p\<bar> < 2 ^ 53" and q0: "0 < q" and q: "q < 2 ^ 53"
  shows "\<exists>s. fmul (fdiv (f64_of_int p) (f64_of_nat q)) (Fin 1000) = Fin s
             \<and> \<bar>s - 1000 * (of_int p / of_nat q)\<bar> \<le> \<bar>of_int p / of_nat q\<bar> / 2 ^ 42"
proof -
  define x :: rat where "x = of_int p / of_nat q"
  have qpos: "(0::rat) < of_nat q" using q0 by simp
  have qle: "(of_nat q :: rat) \<le> 2 ^ 53"
    using q by (metis less_imp_le of_nat_le_iff of_nat_numeral of_nat_power)
  have ple: "\<bar>of_int p :: rat\<bar> \<le> 2 ^ 53"
    using p by (metis less_imp_le of_int_abs of_int_le_iff of_int_numeral of_int_power)
  have ax: "\<bar>x\<bar> = \<bar>of_int p\<bar> / of_nat q" using qpos by (simp add: x_def)
  have x_hi: "\<bar>x\<bar> \<le> 2 ^ 53"
  proof -
    have "\<bar>of_int p :: rat\<bar> / of_nat q \<le> \<bar>of_int p\<bar> / 1"
      using q0 by (intro divide_left_mono) simp_all
    with ple show ?thesis by (simp add: ax)
  qed
  have x_lo: "1 / 2 ^ 53 \<le> \<bar>x\<bar>" if "x \<noteq> 0"
  proof -
    from that have "p \<noteq> 0" by (auto simp: x_def)
    then have "1 \<le> \<bar>p\<bar>" by simp
    then have "(1::rat) \<le> \<bar>of_int p\<bar>" by (metis of_int_1_le_iff of_int_abs)
    then have "1 / of_nat q \<le> \<bar>of_int p :: rat\<bar> / of_nat q"
      using qpos by (intro divide_right_mono) simp_all
    moreover have "1 / 2 ^ 53 \<le> 1 / (of_nat q :: rat)"
      using qpos qle by (intro divide_left_mono) simp_all
    ultimately show ?thesis unfolding ax by (rule order_trans [rotated])
  qed
  have div: "fdiv (f64_of_int p) (f64_of_nat q) = round_f64 x"
    using qpos by (simp add: f64_of_int_exact [OF p] f64_of_nat_exact [OF q] x_def)
  have "x = 0 \<or> 2 powi (- 1022) \<le> \<bar>x\<bar>"
  proof (cases "x = 0")
    case False
    have "(2::rat) powi (- 1022) \<le> 2 powi (- 53)" by (intro power_int_increasing) simp_all
    also have "\<dots> = 1 / 2 ^ 53" by (simp add: power_int_minus_divide)
    finally show ?thesis using x_lo [OF False] by simp
  qed simp
  moreover have "\<bar>x\<bar> < 2 powi 1023"
  proof -
    have "(2::rat) ^ 53 = 2 powi 53" by simp
    also have "\<dots> < 2 powi 1023" by (intro power_int_strict_increasing) simp_all
    finally show ?thesis using x_hi by linarith
  qed
  ultimately obtain r where r: "round_f64 x = Fin r" and re: "\<bar>r - x\<bar> \<le> \<bar>x\<bar> / 2 ^ 53"
    using round_f64_err by blast
  define y where "y = r * 1000"
  have ay: "\<bar>y\<bar> = 1000 * \<bar>r\<bar>" by (simp add: y_def abs_mult)
  have r_hi: "\<bar>r\<bar> \<le> \<bar>x\<bar> + \<bar>x\<bar> / 2 ^ 53" using re by linarith
  have r_lo: "\<bar>x\<bar> - \<bar>x\<bar> / 2 ^ 53 \<le> \<bar>r\<bar>" using re by linarith
  have "y = 0 \<or> 2 powi (- 1022) \<le> \<bar>y\<bar>"
  proof (cases "x = 0")
    case True
    then have "r = 0" using re by simp
    then show ?thesis by (simp add: y_def)
  next
    case False
    have "(2::rat) powi (- 1022) \<le> 2 powi (- 54)" by (intro power_int_increasing) simp_all
    also have "\<dots> = 1 / 2 ^ 54" by (simp add: power_int_minus_divide)
    also have "\<dots> \<le> \<bar>y\<bar>" using x_lo [OF False] r_lo ay by simp
    finally show ?thesis by simp
  qed
  moreover have "\<bar>y\<bar> < 2 powi 1023"
  proof -
    have "\<bar>y\<bar> \<le> 2 ^ 64" using r_hi x_hi ay by simp
    also have "(2::rat) ^ 64 = 2 powi 64" by simp
    also have "\<dots> < 2 powi 1023" by (intro power_int_strict_increasing) simp_all
    finally show ?thesis .
  qed
  ultimately obtain s where s: "round_f64 y = Fin s" and se: "\<bar>s - y\<bar> \<le> \<bar>y\<bar> / 2 ^ 53"
    using round_f64_err by blast
  have "fmul (fdiv (f64_of_int p) (f64_of_nat q)) (Fin 1000) = Fin s"
    by (simp add: div r s y_def [symmetric])
  moreover have "\<bar>s - 1000 * x\<bar> \<le> \<bar>x\<bar> / 2 ^ 42"
  proof -
    have "s - 1000 * x = (s - y) + 1000 * (r - x)" by (simp add: y_def algebra_simps)
    then have "\<bar>s - 1000 * x\<bar> \<le> \<bar>s - y\<bar> + \<bar>1000 * (r - x)\<bar>"
      by (simp only: abs_triangle_ineq)
    also have "\<bar>1000 * (r - x)\<bar> = 1000 * \<bar>r - x\<bar>" by (simp only: abs_mult abs_numeral)
    finally have "\<bar>s - 1000 * x\<bar> \<le> \<bar>s - y\<bar> + 1000 * \<bar>r - x\<bar>" .
    also have "\<dots> \<le> \<bar>y\<bar> / 2 ^ 53 + 1000 * (\<bar>x\<bar> / 2 ^ 53)" using se re by simp
    also have "\<dots> \<le> \<bar>x\<bar> / 2 ^ 42" using r_hi ay by simp
    finally show ?thesis .
  qed
  ultimately show ?thesis unfolding x_def by blast
qed

section \<open>The two rates of the deaths table\<close>

lemma in_obitos_grouped:
  "(k, n, i, s, m) \<in> set (obitos_grouped o22 o23) \<Longrightarrow> s = sobrevivencia n i \<and> m = mortalidade n i"
  by (auto simp: obitos_grouped_def)

lemma surv_9_1: "sobrevivencia 9 1 = Fin (7818749353073777 / 8796093022208)"
proof -
  have "f64_of_int (int 9 - int 1) = Fin 8" using f64_of_int_exact [of 8] by simp
  moreover have "f64_of_nat 9 = Fin 9" using f64_of_nat_exact [of 9] by simp
  moreover have "round_f64 (8 / 9) = Fin (2001599834386887 / 2251799813685248)"
    using round_f64_eqI [of "8 / 9" "- 1" 8006399337547548] by simp
  moreover have "round_f64 (2001599834386887 / 2251799813685248 * 1000)
      = Fin (7818749353073777 / 8796093022208)"
    using round_f64_eqI [of "2001599834386887 / 2251799813685248 * 1000" 9 7818749353073777] by simp
  ultimately show ?thesis by (simp add: sobrevivencia_def)
qed

lemma mort_9_1: "mortalidade 9 1 = Fin (7818749353073777 / 70368744177664)"
proof -
  have "f64_of_nat 1 = Fin 1" using f64_of_nat_exact [of 1] by simp
  moreover have "f64_of_nat 9 = Fin 9" using f64_of_nat_exact [of 9] by simp
  moreover have "round_f64 (1 / 9) = Fin (2001599834386887 / 18014398509481984)"
    using round_f64_eqI [of "1 / 9" "- 4" 8006399337547548] by simp
  moreover have "round_f64 (2001599834386887 / 18014398509481984 * 1000)
      = Fin (7818749353073777 / 70368744177664)"
    using round_f64_eqI [of "2001599834386887 / 18014398509481984 * 1000" 6 7818749353073777] by simp
  ultimately show ?thesis by (simp add: mortalidade_def series_div_def)
qed

lemma obitos_grouped_9_1: "obitos_grouped
       [\<lparr>DSEI = Some ''X'', NASCIDOS_VIVOS = Some 9, OBITOS_MATERNOS = Some 0,
          OBITOS_INFANTIS = Some 1\<rparr>] []
     = [(''X'', 9, 1, sobrevivencia 9 1, mortalidade 9 1)]"
  by (simp add: obitos_grouped_def groupby_sum2_def group_keys_def col_sum_def List.map_filter_simps)


text \<open>
  C10 (as stated, refuted). The claim: for every district with a nonzero sum of live
  births, the survival rate per thousand plus the infant mortality rate per thousand
  is exactly 1000. The two rates are float64 values, each the result of a rounded
  division and a rounded multiplication; with 9 live births and 1 death they are
  888.8888888888888 and 111.1111111111111, whose sum is 1000 - 7/2^46.
\<close>

theorem rates_sum_not_exactly_1000:
  "obitos_grouped
       [\<lparr>DSEI = Some ''X'', NASCIDOS_VIVOS = Some 9, OBITOS_MATERNOS = Some 0,
          OBITOS_INFANTIS = Some 1\<rparr>] []
     = [(''X'', 9, 1, Fin (7818749353073777 / 8796093022208),
           Fin (7818749353073777 / 70368744177664))]
   \<and> fin_sum (Fin (7818749353073777 / 8796093022208)) (Fin (7818749353073777 / 70368744177664))
       = Some (1000 - 7 / 2 ^ 46)
   \<and> (1000 - 7 / 2 ^ 46 :: rat) \<noteq> 1000"
proof -
  have "obitos_grouped
       [\<lparr>DSEI = Some ''X'', NASCIDOS_VIVOS = Some 9, OBITOS_MATERNOS = Some 0,
          OBITOS_INFANTIS = Some 1\<rparr>] []
     = [(''X'', 9, 1, Fin (7818749353073777 / 8796093022208),
           Fin (7818749353073777 / 70368744177664))]"
    by (simp only: obitos_grouped_9_1 surv_9_1 mort_9_1)
  then show ?thesis by simp
qed

text \<open>
  C10 (amended). For every district of the grouped deaths table whose sum of live
  births is positive, with both sums below \<open>2^53\<close>, the two rates are finite and
  their sum differs from 1000 by at most \<open>(|births - deaths| + deaths) / births / 2^42\<close>,
  which is \<open>2^-42\<close> when the deaths do not exceed the births.
\<close>

theorem rates_sum_to_1000_up_to_rounding:
  assumes row: "(k, n, i, s, m) \<in> set (obitos_grouped obitos_2022 obitos_2023)"
    and n: "0 < n" "n < 2 ^ 53" and i: "i < 2 ^ 53"
  shows "\<exists>a b. s = Fin a \<and> m = Fin b \<and>
           \<bar>a + b - 1000\<bar> \<le> (\<bar>of_int (int n - int i)\<bar> + of_nat i) / of_nat n / 2 ^ 42"
proof -
  have d: "\<bar>int n - int i\<bar> < 2 ^ 53" using n i by auto
  obtain a where a: "sobrevivencia n i = Fin a"
    and ae: "\<bar>a - 1000 * (of_int (int n - int i) / of_nat n)\<bar>
               \<le> \<bar>of_int (int n - int i) / of_nat n\<bar> / 2 ^ 42"
    using ratio_per_mil [OF d n] unfolding sobrevivencia_def by blast
  have i': "\<bar>int i\<bar> < 2 ^ 53" using i by simp
  obtain b where b: "mortalidade n i = Fin b"
    and be: "\<bar>b - 1000 * (of_int (int i) / of_nat n)\<bar> \<le> \<bar>of_int (int i) / of_nat n\<bar> / 2 ^ 42"
    using ratio_per_mil [OF i' n] unfolding mortalidade_def series_div_def f64_of_nat_def by blast
  have npos: "(0::rat) < of_nat n" using n by simp
  have one: "1000 * (of_int (int n - int i) / of_nat n) + 1000 * (of_int (int i) / of_nat n) = (1000::rat)"
    using npos by (simp add: field_simps)
  have "\<bar>a + b - 1000\<bar> \<le> \<bar>a - 1000 * (of_int (int n - int i) / of_nat n)\<bar>
          + \<bar>b - 1000 * (of_int (int i) / of_nat n)\<bar>"
    using one by linarith
  also have "\<dots> \<le> \<bar>of_int (int n - int i) / of_nat n\<bar> / 2 ^ 42 + \<bar>of_int (int i) / of_nat n\<bar> / 2 ^ 42"
    using ae be by linarith
  also have "\<dots> = (\<bar>of_int (int n - int i)\<bar> + of_nat i) / of_nat n / 2 ^ 42"
    using npos by (simp add: field_simps)
  finally show ?thesis using a b in_obitos_grouped [OF row] by auto
qed


theorem rates_sum_to_1000_up_to_rounding_witness:
  "\<exists>a b. sobrevivencia 9 1 = Fin a \<and> mortalidade 9 1 = Fin b \<and> \<bar>a + b - 1000\<bar> \<le> 1 / 2 ^ 42"
proof -
  have m: "(''X'', 9, 1, sobrevivencia 9 1, mortalidade 9 1)
      \<in> set (obitos_grouped
         [\<lparr>DSEI = Some ''X'', NASCIDOS_VIVOS = Some 9, OBITOS_MATERNOS = Some 0,
            OBITOS_INFANTIS = Some 1\<rparr>] [])"
    by (simp only: obitos_grouped_9_1 list.set insertI1)
  have b: "(\<bar>of_int (int 9 - int 1)\<bar> + of_nat 1) / of_nat 9 / 2 ^ 42 = (1 / 2 ^ 42 :: rat)"
    by simp
  from rates_sum_to_1000_up_to_rounding [OF m] show ?thesis
    unfolding b by simp
qed

section \<open>Grouping, merging and the gap\<close>

lemma fsub_antisym: "fsub a b = fneg (fsub b a)"
proof (cases a; cases b)
  fix x y assume "a = Fin x" "b = Fin y"
  then show ?thesis using round_f64_uminus [of "y - x"] by simp
qed simp_all

lemma fneg_fneg: "fneg (fneg a) = a"
  by (cases a) simp_all

lemma fneg_fsub: "fneg (fsub a b) = fsub b a"
  using fsub_antisym [of b a] by simp

lemma in_merge_inner:
  "(k, a, b) \<in> set (merge_inner left right) \<longleftrightarrow> (k, a) \<in> set left \<and> (k, b) \<in> set right"
  by (force simp: merge_inner_def)

lemma set_gap_df:
  "set (gap_df left right) = {(k, a, b, fsub a b) | k a b. (k, a) \<in> set left \<and> (k, b) \<in> set right}"
proof (intro set_eqI iffI)
  fix x assume "x \<in> set (gap_df left right)"
  then obtain k a b where "x = (k, a, b, fsub a b)" "(k, a, b) \<in> set (merge_inner left right)"
    by (auto simp: gap_df_def)
  then show "x \<in> {(k, a, b, fsub a b) | k a b. (k, a) \<in> set left \<and> (k, b) \<in> set right}"
    by (auto simp: in_merge_inner)
next
  fix x assume "x \<in> {(k, a, b, fsub a b) | k a b. (k, a) \<in> set left \<and> (k, b) \<in> set right}"
  then obtain k a b where x: "x = (k, a, b, fsub a b)" and "(k, a, b) \<in> set (merge_inner left right)"
    by (auto simp: in_merge_inner)
  then have "(\<lambda>(k, a, b). (k, a, b, fsub a b)) (k, a, b) \<in> set (gap_df left right)"
    unfolding gap_df_def set_map by (intro imageI)
  then show "x \<in> set (gap_df left right)" using x by simp
qed

lemma group_keys_sorted: "sorted (group_keys key df)" and group_keys_distinct: "distinct (group_keys key df)"
  by (simp_all add: group_keys_def)

lemma set_map_filter_key: "set (List.map_filter key df) = {k. \<exists>r\<in>set df. key r = Some k}"
  by (induction df) (auto simp: List.map_filter_simps split: option.splits)

lemma set_group_keys: "set (group_keys key df) = {k. \<exists>r\<in>set df. key r = Some k}"
  by (simp add: group_keys_def set_map_filter_key)

lemma filter_key_distinct:
  "distinct ks \<Longrightarrow> filter (\<lambda>(k', b). k' = k) (map (\<lambda>k. (k, g k)) ks) = (if k \<in> set ks then [(k, g k)] else [])"
  by (induction ks) auto

lemma merge_inner_tables:
  assumes "distinct ks'"
  shows "merge_inner (map (\<lambda>k. (k, f k)) ks) (map (\<lambda>k. (k, g k)) ks')
         = map (\<lambda>k. (k, f k, g k)) (filter (\<lambda>k. k \<in> set ks') ks)"
  by (induction ks) (simp_all add: merge_inner_def filter_key_distinct [OF assms])

lemma cobertura_por_dsei_eq:
  "cobertura_por_dsei df = map (\<lambda>k. (k, cobertura_de df k)) (group_keys DSEI_GESTAO df)"
  by (simp add: cobertura_por_dsei_def groupby_sum2_def cobertura_de_def)

lemma gap_df_tables:
  assumes "distinct ks'"
  shows "gap_df (map (\<lambda>k. (k, f k)) ks) (map (\<lambda>k. (k, g k)) ks')
         = map (\<lambda>k. (k, f k, g k, fsub (f k) (g k))) (filter (\<lambda>k. k \<in> set ks') ks)"
  by (simp add: gap_df_def merge_inner_tables [OF assms])

lemma create_heatmap_comparison_df_eq:
  "create_heatmap_comparison_df p22 p23 u22 u23 =
     map (\<lambda>k. (k, cobertura_de (p22 @ p23) k, cobertura_de (u22 @ u23) k,
                fsub (cobertura_de (p22 @ p23) k) (cobertura_de (u22 @ u23) k)))
         (filter (\<lambda>k. k \<in> set (group_keys DSEI_GESTAO (u22 @ u23)))
                 (group_keys DSEI_GESTAO (p22 @ p23)))"
  unfolding create_heatmap_comparison_df_def cobertura_por_dsei_eq
  by (rule gap_df_tables) (rule group_keys_distinct)

lemma common_keys_commute:
  "filter (\<lambda>k. k \<in> set (group_keys key df')) (group_keys key df)
   = filter (\<lambda>k. k \<in> set (group_keys key df)) (group_keys key df')"
  by (rule sorted_distinct_set_unique)
     (auto simp: group_keys_sorted group_keys_distinct sorted_wrt_filter)

text \<open>
  C8. Gap computation is antisymmetric: exchanging the two coverage tables negates
  the gap of every joined group. For the merge and subtraction of
  \<open>create_heatmap_comparison\<close> as sets of rows, and for the whole computation from
  the four tables as lists of rows (both merges list the common districts in
  ascending order). A missing gap stays missing on both sides.
\<close>

theorem gap_antisymmetric:
  "set (gap_df right left) = (\<lambda>(k, a, b, g). (k, b, a, fneg g)) ` set (gap_df left right)
   \<and> create_heatmap_comparison_df u22 u23 p22 p23
       = map (\<lambda>(k, a, b, g). (k, b, a, fneg g)) (create_heatmap_comparison_df p22 p23 u22 u23)"
proof
  show "set (gap_df right left) = (\<lambda>(k, a, b, g). (k, b, a, fneg g)) ` set (gap_df left right)"
  proof (intro set_eqI iffI)
    fix x assume "x \<in> set (gap_df right left)"
    then obtain k a b where x: "x = (k, b, a, fsub b a)" "(k, a) \<in> set left" "(k, b) \<in> set right"
      by (auto simp: set_gap_df)
    then have "(k, a, b, fsub a b) \<in> set (gap_df left right)" by (auto simp: set_gap_df)
    moreover have "x = (\<lambda>(k, a, b, g). (k, b, a, fneg g)) (k, a, b, fsub a b)"
      using x(1) by (simp add: fneg_fsub)
    ultimately show "x \<in> (\<lambda>(k, a, b, g). (k, b, a, fneg g)) ` set (gap_df left right)"
      by (rule rev_image_eqI)
  next
    fix x assume "x \<in> (\<lambda>(k, a, b, g). (k, b, a, fneg g)) ` set (gap_df left right)"
    then obtain k a b where "x = (k, b, a, fneg (fsub a b))" "(k, a) \<in> set left" "(k, b) \<in> set right"
      by (auto simp: set_gap_df)
    then show "x \<in> set (gap_df right left)"
      by (auto simp: set_gap_df fneg_fsub)
  qed
  show "create_heatmap_comparison_df u22 u23 p22 p23
       = map (\<lambda>(k, a, b, g). (k, b, a, fneg g)) (create_heatmap_comparison_df p22 p23 u22 u23)"
    unfolding create_heatmap_comparison_df_eq common_keys_commute [of DSEI_GESTAO "p22 @ p23"]
    by (simp add: comp_def fneg_fsub)
qed

lemma r06: "round_f64 (6 / 10) = Fin (5404319552844595 / 9007199254740992)"
  using round_f64_eqI [of "6 / 10" "- 1" 5404319552844595] by simp

lemma r04: "round_f64 (4 / 10) = Fin (3602879701896397 / 9007199254740992)"
  using round_f64_eqI [of "4 / 10" "- 2" 7205759403792794] by simp

lemma r03: "round_f64 (3 / 10) = Fin (5404319552844595 / 18014398509481984)"
  using round_f64_eqI [of "3 / 10" "- 2" 5404319552844595] by simp

lemma r02: "round_f64 (2 / 10) = Fin (3602879701896397 / 18014398509481984)"
  using round_f64_eqI [of "2 / 10" "- 3" 7205759403792794] by simp

lemma gap_06_04:
  "round_f64 (900719925474099 / 4503599627370496) = Fin (900719925474099 / 4503599627370496)"
  using round_f64_eqI [of "900719925474099 / 4503599627370496" "- 3" 7205759403792792] by simp

lemma gap_df_X_Y:
  "gap_df [(''X'', round_f64 (6 / 10)), (''Y'', round_f64 (3 / 10))] [(''X'', round_f64 (4 / 10))]
     = [(''X'', round_f64 (6 / 10), round_f64 (4 / 10), Fin (900719925474099 / 4503599627370496))]"
  unfolding r06 r04 r03 by (simp add: gap_df_def merge_inner_def gap_06_04)

lemma r35: "round_f64 (3 / 5) = Fin (5404319552844595 / 9007199254740992)"
  using round_f64_eqI [of "3 / 5" "- 1" 5404319552844595] by simp

lemma r25: "round_f64 (2 / 5) = Fin (3602879701896397 / 9007199254740992)"
  using round_f64_eqI [of "2 / 5" "- 2" 7205759403792794] by simp

lemma series_div_6_10: "series_div 6 10 = Fin (5404319552844595 / 9007199254740992)"
  using f64_of_nat_exact [of 6] f64_of_nat_exact [of 10] by (simp add: series_div_def r35)

lemma series_div_4_10: "series_div 4 10 = Fin (3602879701896397 / 9007199254740992)"
  using f64_of_nat_exact [of 4] f64_of_nat_exact [of 10] by (simp add: series_div_def r25)

lemma heatmap_X_Y:
  "create_heatmap_comparison_df
      [\<lparr>DSEI_GESTAO = Some ''X'', GESTANTES = Some 10, CONTAGEM = Some 6, ano = 2022\<rparr>,
       \<lparr>DSEI_GESTAO = Some ''Y'', GESTANTES = Some 10, CONTAGEM = Some 3, ano = 2022\<rparr>] []
      [\<lparr>DSEI_GESTAO = Some ''X'', GESTANTES = Some 10, CONTAGEM = Some 4, ano = 2022\<rparr>] []
    = [(''X'', Fin (5404319552844595 / 9007199254740992), Fin (3602879701896397 / 9007199254740992),
        Fin (900719925474099 / 4503599627370496))]"
  by (simp add: create_heatmap_comparison_df_eq group_keys_def List.map_filter_simps
      cobertura_de_def col_sum_def series_div_6_10 series_div_4_10 gap_06_04)

lemma merge_left_row:
  "\<exists>b. (k, a, b) \<in> set (case ms of [] \<Rightarrow> [(k, a, NaN)]
                               | m # ms' \<Rightarrow> map (\<lambda>(k', b). (k, a, b)) (m # ms'))"
proof (cases ms)
  case (Cons m ms')
  then show ?thesis by (cases m) auto
qed simp

lemma merge_left_keeps:
  assumes "(k, a) \<in> set left"
  shows "\<exists>b. (k, a, b) \<in> set (merge_left left right)"
proof -
  obtain b where "(k, a, b) \<in> set (case filter (\<lambda>(k', b). k' = k) right of
      [] \<Rightarrow> [(k, a, NaN)] | m # ms' \<Rightarrow> map (\<lambda>(k', b). (k, a, b)) (m # ms'))"
    using merge_left_row [of k a "filter (\<lambda>(k', b). k' = k) right"] by blast
  then have "(k, a, b) \<in> set (merge_left left right)"
    using assms unfolding merge_left_def by (auto intro!: bexI [of _ "(k, a)"])
  then show ?thesis ..
qed

lemma calcular_cobertura_keeps_prenatal_rows:
  assumes "r \<in> set df_prenatal"
  shows "\<exists>p c. (DSEI_GESTAO r, p, c, a) \<in> set (calcular_cobertura df_prenatal df_ultrassom a)"
proof -
  define left where "left = map (\<lambda>r. (DSEI_GESTAO r, (GESTANTES r, CONTAGEM r,
        fmul (cell_div (CONTAGEM r) (GESTANTES r)) (Fin 100)))) df_prenatal"
  define right where "right = map (\<lambda>r. (DSEI_GESTAO r,
        fmul (cell_div (CONTAGEM r) (GESTANTES r)) (Fin 100))) df_ultrassom"
  define p where "p = (GESTANTES r, CONTAGEM r,
        fmul (cell_div (CONTAGEM r) (GESTANTES r)) (Fin 100))"
  have "(\<lambda>r. (DSEI_GESTAO r, (GESTANTES r, CONTAGEM r,
        fmul (cell_div (CONTAGEM r) (GESTANTES r)) (Fin 100)))) r \<in> set left"
    unfolding left_def set_map using assms by (rule imageI)
  then have "(DSEI_GESTAO r, p) \<in> set left"
    unfolding p_def .
  from merge_left_keeps [OF this] obtain c
    where m: "(DSEI_GESTAO r, p, c) \<in> set (merge_left left right)" ..
  have "(\<lambda>(k, p, c). (k, p, c, a)) (DSEI_GESTAO r, p, c)
      \<in> set (map (\<lambda>(k, p, c). (k, p, c, a)) (merge_left left right))"
    using m unfolding set_map by (rule imageI)
  then have "(DSEI_GESTAO r, p, c, a) \<in> set (calcular_cobertura df_prenatal df_ultrassom a)"
    unfolding calcular_cobertura_def left_def right_def by (simp only: prod.case)
  then show ?thesis by blast
qed

lemma fst_merge_left: "set (map fst (merge_left left right)) = fst ` set left"
proof (induction left)
  case (Cons x xs)
  obtain k a where x: "x = (k, a)" by (cases x)
  have "set (map fst (case filter (\<lambda>(k', b). k' = k) right of
      [] \<Rightarrow> [(k, a, NaN)] | m # ms' \<Rightarrow> map (\<lambda>(k', b). (k, a, b)) (m # ms'))) = {k}"
    by (cases "filter (\<lambda>(k', b). k' = k) right") (auto simp: case_prod_beta)
  then show ?case using Cons by (simp add: merge_left_def x)
qed (simp add: merge_left_def)

lemma calcular_cobertura_keys:
  "set (map fst (calcular_cobertura df_prenatal df_ultrassom a)) = DSEI_GESTAO ` set df_prenatal"
proof -
  have "map fst (calcular_cobertura df_prenatal df_ultrassom a)
      = map fst (merge_left
          (map (\<lambda>r. (DSEI_GESTAO r, (GESTANTES r, CONTAGEM r,
                       fmul (cell_div (CONTAGEM r) (GESTANTES r)) (Fin 100)))) df_prenatal)
          (map (\<lambda>r. (DSEI_GESTAO r, fmul (cell_div (CONTAGEM r) (GESTANTES r)) (Fin 100)))
               df_ultrassom))"
    by (simp add: calcular_cobertura_def case_prod_beta comp_def)
  then show ?thesis
    by (simp only: fst_merge_left) (simp add: image_image)
qed

lemma calcular_cobertura_X_Y:
  "map fst (calcular_cobertura
      [\<lparr>DSEI_GESTAO = Some ''X'', GESTANTES = Some 10, CONTAGEM = Some 6, ano = 2022\<rparr>,
       \<lparr>DSEI_GESTAO = Some ''Y'', GESTANTES = Some 10, CONTAGEM = Some 3, ano = 2022\<rparr>]
      [\<lparr>DSEI_GESTAO = Some ''X'', GESTANTES = Some 10, CONTAGEM = Some 4, ano = 2022\<rparr>] 2022)
    = [Some ''X'', Some ''Y'']"
  by (simp add: calcular_cobertura_def merge_left_def)

lemma gap_not_02:
  "Fin (900719925474099 / 4503599627370496) \<noteq> round_f64 (2 / 10)"
  "Fin (900719925474099 / 4503599627370496) \<noteq> Fin (2 / 10)"
  unfolding r02 by simp_all

lemma map_gap_X_Y:
  "map gap (gap_df [(''X'', round_f64 (6 / 10)), (''Y'', round_f64 (3 / 10))] [(''X'', round_f64 (4 / 10))])
     = [Fin (900719925474099 / 4503599627370496)]"
  unfolding gap_df_X_Y by (simp add: gap_def)

text \<open>
  C5 (as stated, refuted). The claim: the gap computation is an inner join, and for
  the coverages 0.6 and 0.3 of X and Y against 0.4 of X the result is X alone with
  gap 0.2. The gap of X is the float64 difference of 0.6 and 0.4, which is
  0.19999999999999996: it is neither the float64 0.2 nor the number 2/10. And
  \<open>calcular_cobertura\<close> of mapa_desigualdades.py, on the same districts, keeps Y,
  which has no ultrasound row: its merge is a left one.
\<close>

theorem scenario_gap_is_not_0_2:
  "map gap (gap_df [(''X'', round_f64 (6 / 10)), (''Y'', round_f64 (3 / 10))]
                   [(''X'', round_f64 (4 / 10))])
     = [Fin (900719925474099 / 4503599627370496)]
   \<and> map gap (gap_df [(''X'', round_f64 (6 / 10)), (''Y'', round_f64 (3 / 10))]
                     [(''X'', round_f64 (4 / 10))]) \<noteq> [round_f64 (2 / 10)]
   \<and> map gap (gap_df [(''X'', round_f64 (6 / 10)), (''Y'', round_f64 (3 / 10))]
                     [(''X'', round_f64 (4 / 10))]) \<noteq> [Fin (2 / 10)]
   \<and> map fst (calcular_cobertura
        [\<lparr>DSEI_GESTAO = Some ''X'', GESTANTES = Some 10, CONTAGEM = Some 6, ano = 2022\<rparr>,
         \<lparr>DSEI_GESTAO = Some ''Y'', GESTANTES = Some 10, CONTAGEM = Some 3, ano = 2022\<rparr>]
        [\<lparr>DSEI_GESTAO = Some ''X'', GESTANTES = Some 10, CONTAGEM = Some 4, ano = 2022\<rparr>] 2022)
       = [Some ''X'', Some ''Y'']"
  unfolding map_gap_X_Y using gap_not_02 calcular_cobertura_X_Y by simp

text \<open>
  C5 (amended). The gap computation of \<open>create_heatmap_comparison\<close> is an inner join
  on the district: the result has one row for each district that has a group in both
  tables and none for a district of only one table, and the gap of a row is the
  prenatal coverage minus the ultrasound coverage, a float64 subtraction. For the
  coverages 0.6 and 0.3 of X and Y against 0.4 of X the result is the one row of X;
  its gap is the float64 difference 0.19999999999999996, within \<open>2^-54\<close> of 0.2.
  The same from counts: 6 and 3 of 10 against 4 of 10. \<open>calcular_cobertura\<close> of
  mapa_desigualdades.py computes no gap, and its merge is a left one: the districts
  of its result are those of the prenatal table, with or without an ultrasound row.
\<close>

theorem gap_is_inner_join_difference:
  "create_heatmap_comparison_df p22 p23 u22 u23 =
     map (\<lambda>k. (k, cobertura_de (p22 @ p23) k, cobertura_de (u22 @ u23) k,
                fsub (cobertura_de (p22 @ p23) k) (cobertura_de (u22 @ u23) k)))
         (filter (\<lambda>k. k \<in> set (group_keys DSEI_GESTAO (u22 @ u23)))
                 (group_keys DSEI_GESTAO (p22 @ p23)))
   \<and> set (map fst (create_heatmap_comparison_df p22 p23 u22 u23)) =
       {k. (\<exists>r\<in>set (p22 @ p23). DSEI_GESTAO r = Some k)
         \<and> (\<exists>r\<in>set (u22 @ u23). DSEI_GESTAO r = Some k)}
   \<and> set (gap_df left right) =
       {(k, a, b, fsub a b) | k a b. (k, a) \<in> set left \<and> (k, b) \<in> set right}
   \<and> gap_df [(''X'', round_f64 (6 / 10)), (''Y'', round_f64 (3 / 10))] [(''X'', round_f64 (4 / 10))]
       = [(''X'', round_f64 (6 / 10), round_f64 (4 / 10), Fin (900719925474099 / 4503599627370496))]
   \<and> create_heatmap_comparison_df
        [\<lparr>DSEI_GESTAO = Some ''X'', GESTANTES = Some 10, CONTAGEM = Some 6, ano = 2022\<rparr>,
         \<lparr>DSEI_GESTAO = Some ''Y'', GESTANTES = Some 10, CONTAGEM = Some 3, ano = 2022\<rparr>] []
        [\<lparr>DSEI_GESTAO = Some ''X'', GESTANTES = Some 10, CONTAGEM = Some 4, ano = 2022\<rparr>] []
       = [(''X'', Fin (5404319552844595 / 9007199254740992),
            Fin (3602879701896397 / 9007199254740992), Fin (900719925474099 / 4503599627370496))]
   \<and> \<bar>900719925474099 / 4503599627370496 - 2 / 10\<bar> \<le> (1 / 2 ^ 54 :: rat)
   \<and> set (map fst (calcular_cobertura df_prenatal df_ultrassom a)) = DSEI_GESTAO ` set df_prenatal"
proof (intro conjI)
  show "set (map fst (create_heatmap_comparison_df p22 p23 u22 u23)) =
       {k. (\<exists>r\<in>set (p22 @ p23). DSEI_GESTAO r = Some k)
         \<and> (\<exists>r\<in>set (u22 @ u23). DSEI_GESTAO r = Some k)}"
    unfolding create_heatmap_comparison_df_eq
    by (auto simp: comp_def set_group_keys simp del: set_append)
  show "\<bar>900719925474099 / 4503599627370496 - 2 / 10\<bar> \<le> (1 / 2 ^ 54 :: rat)"
    by simp
qed (rule create_heatmap_comparison_df_eq set_gap_df gap_df_X_Y heatmap_X_Y
    calcular_cobertura_keys)+

section \<open>The order and the totals of the groups\<close>

lemma map_fst_groupby_sum2: "map fst (groupby_sum2 key c1 c2 df) = group_keys key df"
  by (simp add: groupby_sum2_def comp_def)

lemma group_keys_strict_sorted: "sorted_wrt (<) (group_keys key df)"
  using group_keys_sorted [of key df] group_keys_distinct [of key df]
  by (simp add: strict_sorted_iff)

lemma first_occurrence_order_props:
  "distinct (first_occurrence_order ks)" "set (first_occurrence_order ks) = set ks"
  by (simp_all add: first_occurrence_order_def)

lemma group_keys_first_occurrence_iff:
  "group_keys key df = first_occurrence_order (List.map_filter key df)
     \<longleftrightarrow> sorted (first_occurrence_order (List.map_filter key df))"
proof
  assume "group_keys key df = first_occurrence_order (List.map_filter key df)"
  then show "sorted (first_occurrence_order (List.map_filter key df))"
    using group_keys_sorted [of key df] by simp
next
  assume "sorted (first_occurrence_order (List.map_filter key df))"
  then show "group_keys key df = first_occurrence_order (List.map_filter key df)"
    by (intro sorted_distinct_set_unique)
       (simp_all add: group_keys_sorted group_keys_distinct first_occurrence_order_props
          set_group_keys set_map_filter_key)
qed

lemma sum_groups:
  "finite S \<Longrightarrow>
   (\<Sum>k\<in>S. col_sum c (filter (\<lambda>r. key r = Some k) df))
     = col_sum c (filter (\<lambda>r. case key r of None \<Rightarrow> False | Some k \<Rightarrow> k \<in> S) df)"
proof (induction df)
  case Nil
  then show ?case by (simp add: col_sum_def)
next
  case (Cons r df)
  show ?case
  proof (cases "key r")
    case None
    then show ?thesis using Cons by simp
  next
    case (Some k)
    define v where "v = (case c r of None \<Rightarrow> 0 | Some v \<Rightarrow> v)"
    have "(\<Sum>k'\<in>S. col_sum c (filter (\<lambda>r. key r = Some k') (r # df)))
        = (\<Sum>k'\<in>S. (if k' = k then v else 0) + col_sum c (filter (\<lambda>r. key r = Some k') df))"
      by (intro sum.cong) (auto simp: Some col_sum_def v_def)
    also have "\<dots> = (\<Sum>k'\<in>S. if k' = k then v else 0)
        + (\<Sum>k'\<in>S. col_sum c (filter (\<lambda>r. key r = Some k') df))"
      by (simp add: sum.distrib)
    also have "(\<Sum>k'\<in>S. if k' = k then v else 0) = (if k \<in> S then v else 0)"
      using Cons.prems by (simp add: sum.delta)
    finally show ?thesis using Cons by (simp add: Some col_sum_def v_def)
  qed
qed

lemma grouped_total:
  "sum_list (map (\<lambda>k. col_sum c (filter (\<lambda>r. key r = Some k) df)) (group_keys key df))
     = col_sum c (dropna_key key df)"
proof -
  have "sum_list (map (\<lambda>k. col_sum c (filter (\<lambda>r. key r = Some k) df)) (group_keys key df))
      = (\<Sum>k\<in>set (group_keys key df). col_sum c (filter (\<lambda>r. key r = Some k) df))"
    by (rule sum_list_distinct_conv_sum_set) (rule group_keys_distinct)
  also have "\<dots> = col_sum c (filter (\<lambda>r. case key r of None \<Rightarrow> False
                                         | Some k \<Rightarrow> k \<in> set (group_keys key df)) df)"
    by (rule sum_groups) simp
  also have "filter (\<lambda>r. case key r of None \<Rightarrow> False | Some k \<Rightarrow> k \<in> set (group_keys key df)) df
      = dropna_key key df"
    unfolding dropna_key_def by (rule filter_cong) (auto simp: set_group_keys split: option.splits)
  finally show ?thesis .
qed

lemma col_sum_split:
  "col_sum c df = col_sum c (dropna_key key df) + col_sum c (filter (\<lambda>r. key r = None) df)"
  by (induction df) (auto simp: col_sum_def dropna_key_def)


lemma dropna_key_idem: "dropna_key key (dropna_key key a @ dropna_key key b) = dropna_key key a @ dropna_key key b"
  by (simp add: dropna_key_def)

lemma grouped_total_fst:
  "sum_list (map (\<lambda>(k, a, b). a) (groupby_sum2 key c1 c2 df)) = col_sum c1 (dropna_key key df)"
  using grouped_total [where c = c1 and key = key and df = df]
  by (simp add: groupby_sum2_def comp_def)

lemma grouped_total_snd:
  "sum_list (map (\<lambda>(k, a, b). b) (groupby_sum2 key c1 c2 df)) = col_sum c2 (dropna_key key df)"
  using grouped_total [where c = c2 and key = key and df = df]
  by (simp add: groupby_sum2_def comp_def)

text \<open>
  C3 (as stated, refuted). The claim: the groups come out in the order in which their
  keys first occur in the table, not in alphabetical order. With a row of district B
  before a row of district A, the grouped table lists A before B.
\<close>

theorem groups_not_in_first_occurrence_order:
  "map fst (groupby_sum2 DSEI_GESTAO GESTANTES CONTAGEM
      [\<lparr>DSEI_GESTAO = Some ''B'', GESTANTES = Some 10, CONTAGEM = Some 5, ano = 2022\<rparr>,
       \<lparr>DSEI_GESTAO = Some ''A'', GESTANTES = Some 20, CONTAGEM = Some 4, ano = 2022\<rparr>])
     = [''A'', ''B'']
   \<and> first_occurrence_order (List.map_filter DSEI_GESTAO
      [\<lparr>DSEI_GESTAO = Some ''B'', GESTANTES = Some 10, CONTAGEM = Some 5, ano = 2022\<rparr>,
       \<lparr>DSEI_GESTAO = Some ''A'', GESTANTES = Some 20, CONTAGEM = Some 4, ano = 2022\<rparr>])
     = [''B'', ''A'']
   \<and> map fst (prenatal_grouped
      [\<lparr>DSEI_GESTAO = Some ''B'', GESTANTES = Some 10, CONTAGEM = Some 5, ano = 2022\<rparr>,
       \<lparr>DSEI_GESTAO = Some ''A'', GESTANTES = Some 20, CONTAGEM = Some 4, ano = 2022\<rparr>] [])
     = [''A'', ''B'']"
  by (simp add: map_fst_groupby_sum2 prenatal_grouped_def comp_def case_prod_unfold
      group_keys_def dropna_key_def List.map_filter_simps first_occurrence_order_def)

text \<open>
  C3 (amended). The scripts group with the default \<open>sort=True\<close>: the rows of a grouped
  table are in strictly ascending order of their keys, one for each key that occurs in
  the table, whatever the order of the input; that order is the first-occurrence order
  exactly when the keys first occur in ascending order. So for \<open>prenatal_grouped\<close> of
  prenatal_mortalidade.py and for the grouped tables of \<open>create_heatmap_comparison\<close>.
\<close>

theorem groups_in_ascending_key_order:
  "sorted_wrt (<) (map fst (groupby_sum2 key c1 c2 df))
   \<and> set (map fst (groupby_sum2 key c1 c2 df)) = {k. \<exists>r\<in>set df. key r = Some k}
   \<and> (map fst (groupby_sum2 key c1 c2 df) = first_occurrence_order (List.map_filter key df)
        \<longleftrightarrow> sorted (first_occurrence_order (List.map_filter key df)))
   \<and> sorted_wrt (<) (map fst (prenatal_grouped prenatal_2022 prenatal_2023))
   \<and> sorted_wrt (<) (map fst (cobertura_por_dsei df'))"
proof -
  have "map fst (prenatal_grouped prenatal_2022 prenatal_2023)
      = group_keys DSEI_GESTAO (dropna_key DSEI_GESTAO prenatal_2022 @ dropna_key DSEI_GESTAO prenatal_2023)"
    by (simp add: prenatal_grouped_def groupby_sum2_def comp_def)
  moreover have "map fst (cobertura_por_dsei df') = group_keys DSEI_GESTAO df'"
    by (simp add: cobertura_por_dsei_eq comp_def)
  ultimately show ?thesis
    by (simp only: map_fst_groupby_sum2 group_keys_strict_sorted set_group_keys
        group_keys_first_occurrence_iff simp_thms)
qed

text \<open>
  C7 (as stated, refuted). The claim: for every table the sum of a value column over
  the grouped output equals its sum over the ungrouped input. \<open>groupby\<close> leaves out the
  rows whose key is missing (its default \<open>dropna=True\<close>): a table of one such row with
  5 pregnant women has no group, and the grouped total is 0.
\<close>

theorem grouped_total_loses_rows_without_key:
  "groupby_sum2 DSEI_GESTAO GESTANTES CONTAGEM
      [\<lparr>DSEI_GESTAO = None, GESTANTES = Some 5, CONTAGEM = Some 1, ano = 2022\<rparr>] = []
   \<and> sum_list (map (\<lambda>(k, g, c). g) (groupby_sum2 DSEI_GESTAO GESTANTES CONTAGEM
      [\<lparr>DSEI_GESTAO = None, GESTANTES = Some 5, CONTAGEM = Some 1, ano = 2022\<rparr>])) = 0
   \<and> col_sum GESTANTES [\<lparr>DSEI_GESTAO = None, GESTANTES = Some 5, CONTAGEM = Some 1, ano = 2022\<rparr>] = 5"
  by (simp add: groupby_sum2_def group_keys_def List.map_filter_simps col_sum_def)

text \<open>
  C7 (amended). The sum of a value column over the grouped output equals its sum over
  the input rows whose group key is present; the total of the input is that sum plus
  the sum over the rows without a key. In prenatal_mortalidade.py the rows without a
  district are dropped before the grouping, and the totals of \<open>prenatal_grouped\<close> are
  the totals of the table that is grouped.
\<close>

theorem grouped_total_is_total_of_keyed_rows:
  "sum_list (map (\<lambda>(k, a, b). a) (groupby_sum2 key c1 c2 df)) = col_sum c1 (dropna_key key df)
   \<and> sum_list (map (\<lambda>(k, a, b). b) (groupby_sum2 key c1 c2 df)) = col_sum c2 (dropna_key key df)
   \<and> col_sum c1 df = sum_list (map (\<lambda>(k, a, b). a) (groupby_sum2 key c1 c2 df))
                       + col_sum c1 (filter (\<lambda>r. key r = None) df)
   \<and> sum_list (map (\<lambda>(k, g, c, cov). g) (prenatal_grouped prenatal_2022 prenatal_2023))
       = col_sum GESTANTES (dropna_key DSEI_GESTAO prenatal_2022 @ dropna_key DSEI_GESTAO prenatal_2023)
   \<and> sum_list (map (\<lambda>(k, g, c, cov). c) (prenatal_grouped prenatal_2022 prenatal_2023))
       = col_sum CONTAGEM (dropna_key DSEI_GESTAO prenatal_2022 @ dropna_key DSEI_GESTAO prenatal_2023)"
proof -
  note a = grouped_total_fst and b = grouped_total_snd
  have g: "sum_list (map (\<lambda>(k, g, c, cov). g) (prenatal_grouped prenatal_2022 prenatal_2023))
       = col_sum GESTANTES (dropna_key DSEI_GESTAO prenatal_2022 @ dropna_key DSEI_GESTAO prenatal_2023)"
    using a [where key = DSEI_GESTAO and ?c1.0 = GESTANTES and ?c2.0 = CONTAGEM
        and df = "dropna_key DSEI_GESTAO prenatal_2022 @ dropna_key DSEI_GESTAO prenatal_2023"]
    by (simp add: prenatal_grouped_def comp_def case_prod_unfold dropna_key_idem)
  have c: "sum_list (map (\<lambda>(k, g, c, cov). c) (prenatal_grouped prenatal_2022 prenatal_2023))
       = col_sum CONTAGEM (dropna_key DSEI_GESTAO prenatal_2022 @ dropna_key DSEI_GESTAO prenatal_2023)"
    using b [where key = DSEI_GESTAO and ?c1.0 = GESTANTES and ?c2.0 = CONTAGEM
        and df = "dropna_key DSEI_GESTAO prenatal_2022 @ dropna_key DSEI_GESTAO prenatal_2023"]
    by (simp add: prenatal_grouped_def comp_def case_prod_unfold dropna_key_idem)
  show ?thesis
    using col_sum_split [where c = c1 and key = key and df = df] by (simp only: a b g c simp_thms)
qed

section \<open>Sorting and selecting\<close>



lemma f64_le_not_NaN: "f64_le a b \<Longrightarrow> a \<noteq> NaN \<and> b \<noteq> NaN"
  by (cases a; cases b) auto







lemma round_half: "round_f64 (1 / 2) = Fin (1 / 2)"
  using round_f64_eqI [of "1 / 2" "- 1" 4503599627370496] by simp


lemma series_div_50_100: "series_div 50 100 = Fin (1 / 2)"
  using f64_of_nat_exact [of 50] f64_of_nat_exact [of 100] by (simp add: series_div_def round_half)

lemma series_div_0_0: "series_div 0 0 = NaN"
  using f64_of_nat_exact [of 0] by (simp add: series_div_def)






section \<open>A group whose denominator is zero\<close>

lemma round_f64_ge_1:
  assumes "1 \<le> x"
  shows "round_f64 x = PInf \<or> (\<exists>r>0. round_f64 x = Fin r)"
proof -
  have xpos: "0 < x" using assms by simp
  define e where "e = ilog2 x"
  have eb: "2 powi e \<le> x" "x < 2 powi (e + 1)"
    using ilog2_bounds [OF xpos] by (simp_all add: e_def)
  have e0: "0 \<le> e"
  proof (rule ccontr)
    assume "\<not> 0 \<le> e"
    then have "(2::rat) powi (e + 1) \<le> 2 powi 0" by (intro power_int_increasing) simp_all
    with eb(2) assms show False by simp
  qed
  define ulp :: rat where "ulp = 2 powi (e - 52)"
  define n where "n = round_half_even (x / ulp)"
  have u: "0 < ulp" by (simp add: ulp_def)
  have "(2::rat) powi 52 = 2 powi (e - (e - 52))" by simp
  also have "\<dots> = 2 powi e / ulp" unfolding ulp_def by (rule power_int_diff) simp
  also have "\<dots> \<le> x / ulp" using eb(1) u by (simp add: divide_right_mono)
  finally have m: "2 powi 52 \<le> x / ulp" .
  have "\<bar>of_int n - x / ulp\<bar> \<le> 1 / 2" unfolding n_def by (rule round_half_even_err)
  then have "x / ulp - 1 / 2 \<le> of_int n" by linarith
  moreover have "(1::rat) \<le> 2 powi 52" by simp
  ultimately have "(0::rat) < of_int n" using m by linarith
  then have r: "0 < of_int n * ulp" using u by simp
  have "round_f64 x = (if 2 powi 1024 \<le> of_int n * ulp then PInf else Fin (of_int n * ulp))"
    using xpos e0
    by (simp add: round_f64_def Let_def max_def e_def [symmetric] ulp_def [symmetric]
        n_def [symmetric])
  then show ?thesis using r by auto
qed

lemma f64_of_nat_pos: "0 < c \<Longrightarrow> f64_of_nat c = PInf \<or> (\<exists>r>0. f64_of_nat c = Fin r)"
  using round_f64_ge_1 [of "of_nat c"] by (simp add: f64_of_nat_def f64_of_int_def)

lemma f64_of_nat_0: "f64_of_nat 0 = Fin 0"
  by (simp add: f64_of_nat_def f64_of_int_def round_f64_zero)

lemma series_div_zero_den: "series_div c 0 = (if c = 0 then NaN else PInf)"
  using f64_of_nat_pos [of c] by (auto simp: series_div_def f64_of_nat_0)

lemma fillna0_not_NaN: "fillna0 x \<noteq> NaN"
  by (simp add: fillna0_def)

lemma series_div_finite:
  assumes g0: "0 < g" and g: "g < 2 ^ 53" and c: "c < 2 ^ 53"
  shows "\<exists>q. series_div c g = Fin q"
proof -
  have "\<bar>int c\<bar> < 2 ^ 53" using c by simp
  from ratio_per_mil [OF this g0 g]
  obtain s where "fmul (fdiv (f64_of_int (int c)) (f64_of_nat g)) (Fin 1000) = Fin s" by blast
  then show ?thesis
    by (cases "fdiv (f64_of_int (int c)) (f64_of_nat g)")
       (auto simp: series_div_def f64_of_nat_def split: if_splits)
qed


lemma process_prenatal_data_A_B:
  "process_prenatal_data [u ''DSEI_GESTAO'', [78, 186] @ u '' GESTANTES'', u ''6 OU MAIS CONSULTAS'']
      [\<lparr>DSEI_GESTAO = Some ''A'', GESTANTES = Some 100, CONTAGEM = Some 50, ano = 2022\<rparr>,
       \<lparr>DSEI_GESTAO = Some ''B'', GESTANTES = Some 0, CONTAGEM = Some 0, ano = 2022\<rparr>]
     = Inr [(''A'', 100, 50, Fin (1 / 2)), (''B'', 0, 0, Fin 0)]"
  by (simp add: process_prenatal_data_def process_data_def u_def py_lower_def lower_cp_def
      sublist_code(3) grouped_cobertura_fillna_def groupby_sum2_def group_keys_def
      List.map_filter_simps col_sum_def series_div_50_100 series_div_0_0 fillna0_def)

lemma mset_pair_cases:
  assumes "mset out = {#a, b#}"
  shows "out = [a, b] \<or> out = [b, a]"
proof -
  have "length out = 2" using mset_eq_length [of out "[a, b]"] assms by simp
  then obtain x y where out: "out = [x, y]"
    by (cases out; cases "tl out") auto
  with assms show ?thesis by (auto simp: add_eq_conv_ex)
qed

lemma top1_A_B:
  assumes "is_sort_values False cobertura [(''A'', 100, 50, Fin (1 / 2)), (''B'', 0, 0, Fin 0)] out"
  shows "head 1 out = [(''A'', 100, 50, Fin (1 / 2))]"
proof -
  have "mset out = {#(''A'', 100, 50, Fin (1 / 2)), (''B'', 0, 0, Fin 0)#}"
    using assms by (simp add: is_sort_values_def)
  then have "out = [(''A'', 100, 50, Fin (1 / 2)), (''B'', 0, 0, Fin 0)]
      \<or> out = [(''B'', 0, 0, Fin 0), (''A'', 100, 50, Fin (1 / 2))]"
    by (rule mset_pair_cases)
  then show ?thesis
    using assms by (auto simp: is_sort_values_def key_before_def cobertura_def head_def)
qed

text \<open>
  C1 (as stated, refuted). The claim: a group whose denominator sum is zero gets an
  undefined (NaN-like) coverage, never the number 0, and is excluded from top and
  bottom selection. In \<open>process_prenatal_data\<close> the ratio 0/0 is replaced by
  \<open>fillna(0)\<close>: group B of the scenario gets the coverage 0 and is among the first
  five rows of the table sorted by falling coverage.
\<close>

theorem zero_denominator_group_gets_zero:
  "process_prenatal_data [u ''DSEI_GESTAO'', [78, 186] @ u '' GESTANTES'', u ''6 OU MAIS CONSULTAS'']
      [\<lparr>DSEI_GESTAO = Some ''A'', GESTANTES = Some 100, CONTAGEM = Some 50, ano = 2022\<rparr>,
       \<lparr>DSEI_GESTAO = Some ''B'', GESTANTES = Some 0, CONTAGEM = Some 0, ano = 2022\<rparr>]
     = Inr [(''A'', 100, 50, Fin (1 / 2)), (''B'', 0, 0, Fin 0)]
   \<and> cobertura (''B'', 0, 0, Fin 0) = Fin 0
   \<and> is_sort_values False cobertura [(''A'', 100, 50, Fin (1 / 2)), (''B'', 0, 0, Fin 0)]
        [(''A'', 100, 50, Fin (1 / 2)), (''B'', 0, 0, Fin 0)]
   \<and> head 5 [(''A'', 100 :: nat, 50 :: nat, Fin (1 / 2)), (''B'', 0, 0, Fin 0)]
       = [(''A'', 100, 50, Fin (1 / 2)), (''B'', 0, 0, Fin 0)]"
  using process_prenatal_data_A_B
  by (simp add: is_sort_values_def key_before_def cobertura_def head_def)

text \<open>
  C1 (amended). In \<open>process_prenatal_data\<close> no coverage is missing: a group whose
  denominator sum is zero has the coverage 0 when its numerator sum is zero too, and
  plus infinity otherwise; it stays in the table that is ranked.
  \<open>ultrassom_coverage_analysis\<close> keeps only the rows with a positive number of
  pregnant women and divides afterwards, so the coverages it ranks are defined
  (finite, for counts below \<open>2^53\<close>). Over A (50 of 100) and B (0 of 0), every
  output of the sort by falling coverage has A first: top-1 is A alone.
\<close>

theorem zero_denominator_coverage:
  "(\<forall>out. process_prenatal_data columns df = Inr out \<longrightarrow>
      (\<forall>(k, g, c, cov)\<in>set out. cov \<noteq> NaN \<and> (g = 0 \<longrightarrow> cov = (if c = 0 then Fin 0 else PInf))))
   \<and> (\<forall>r\<in>set (ultrassom_validos df').
        \<exists>g c. GESTANTES r = Some g \<and> CONTAGEM r = Some c \<and> 0 < g
          \<and> ultrassom_cobertura r = series_div c g
          \<and> (g < 2 ^ 53 \<and> c < 2 ^ 53 \<longrightarrow> (\<exists>q. ultrassom_cobertura r = Fin q)))
   \<and> (\<forall>out. is_sort_values False cobertura [(''A'', 100, 50, Fin (1 / 2)), (''B'', 0, 0, Fin 0)] out
        \<longrightarrow> head 1 out = [(''A'', 100, 50, Fin (1 / 2))])"
proof (intro conjI allI impI ballI)
  fix out r
  assume "process_prenatal_data columns df = Inr out" and r: "r \<in> set out"
  then have "out = grouped_cobertura_fillna df"
    by (auto simp: process_prenatal_data_def process_data_def split: option.splits)
  with r obtain k g c where "r = (k, g, c, fillna0 (series_div c g))"
    by (auto simp: grouped_cobertura_fillna_def)
  then show "case r of (k, g, c, cov) \<Rightarrow>
      cov \<noteq> NaN \<and> (g = 0 \<longrightarrow> cov = (if c = 0 then Fin 0 else PInf))"
    by (simp add: fillna0_not_NaN) (simp add: series_div_zero_den fillna0_def)
next
  fix r assume "r \<in> set (ultrassom_validos df')"
  then obtain g c where gc: "GESTANTES r = Some g" "CONTAGEM r = Some c" "0 < g"
    by (auto simp: ultrassom_validos_def split: option.splits)
  then have "ultrassom_cobertura r = series_div c g"
    by (simp add: ultrassom_cobertura_def cell_div_def)
  then show "\<exists>g c. GESTANTES r = Some g \<and> CONTAGEM r = Some c \<and> 0 < g
          \<and> ultrassom_cobertura r = series_div c g
          \<and> (g < 2 ^ 53 \<and> c < 2 ^ 53 \<longrightarrow> (\<exists>q. ultrassom_cobertura r = Fin q))"
    using gc series_div_finite [of g c] by auto
next
  fix out
  assume "is_sort_values False cobertura [(''A'', 100, 50, Fin (1 / 2)), (''B'', 0, 0, Fin 0)] out"
  then show "head 1 out = [(''A'', 100, 50, Fin (1 / 2))]" by (rule top1_A_B)
qed

theorem zero_denominator_coverage_witness:
  "process_prenatal_data [u ''DSEI_GESTAO'', [78, 186] @ u '' GESTANTES'', u ''6 OU MAIS CONSULTAS'']
      [\<lparr>DSEI_GESTAO = Some ''A'', GESTANTES = Some 100, CONTAGEM = Some 50, ano = 2022\<rparr>,
       \<lparr>DSEI_GESTAO = Some ''B'', GESTANTES = Some 0, CONTAGEM = Some 0, ano = 2022\<rparr>]
     = Inr [(''A'', 100, 50, Fin (1 / 2)), (''B'', 0, 0, Fin 0)]
   \<and> Fin 0 \<noteq> NaN
   \<and> is_sort_values False cobertura [(''A'', 100, 50, Fin (1 / 2)), (''B'', 0, 0, Fin 0)]
        [(''A'', 100, 50, Fin (1 / 2)), (''B'', 0, 0, Fin 0)]
   \<and> head 1 [(''A'', 100 :: nat, 50 :: nat, Fin (1 / 2)), (''B'', 0, 0, Fin 0)]
       = [(''A'', 100, 50, Fin (1 / 2))]
   \<and> ultrassom_validos
        [\<lparr>DSEI_GESTAO = Some ''A'', GESTANTES = Some 10, CONTAGEM = Some 5, ano = 2022\<rparr>,
         \<lparr>DSEI_GESTAO = Some ''B'', GESTANTES = Some 0, CONTAGEM = Some 0, ano = 2022\<rparr>]
       = [\<lparr>DSEI_GESTAO = Some ''A'', GESTANTES = Some 10, CONTAGEM = Some 5, ano = 2022\<rparr>]
   \<and> (\<exists>q. ultrassom_cobertura
          \<lparr>DSEI_GESTAO = Some ''A'', GESTANTES = Some 10, CONTAGEM = Some 5, ano = 2022\<rparr> = Fin q)"
proof -
  note T = zero_denominator_coverage
    [of "[u ''DSEI_GESTAO'', [78, 186] @ u '' GESTANTES'', u ''6 OU MAIS CONSULTAS'']"
        "[\<lparr>DSEI_GESTAO = Some ''A'', GESTANTES = Some 100, CONTAGEM = Some 50, ano = 2022\<rparr>,
          \<lparr>DSEI_GESTAO = Some ''B'', GESTANTES = Some 0, CONTAGEM = Some 0, ano = 2022\<rparr>]"
        "[\<lparr>DSEI_GESTAO = Some ''A'', GESTANTES = Some 10, CONTAGEM = Some 5, ano = 2022\<rparr>,
          \<lparr>DSEI_GESTAO = Some ''B'', GESTANTES = Some 0, CONTAGEM = Some 0, ano = 2022\<rparr>]"]
  have v: "ultrassom_validos
        [\<lparr>DSEI_GESTAO = Some ''A'', GESTANTES = Some 10, CONTAGEM = Some 5, ano = 2022\<rparr>,
         \<lparr>DSEI_GESTAO = Some ''B'', GESTANTES = Some 0, CONTAGEM = Some 0, ano = 2022\<rparr>]
       = [\<lparr>DSEI_GESTAO = Some ''A'', GESTANTES = Some 10, CONTAGEM = Some 5, ano = 2022\<rparr>]"
    by (simp add: ultrassom_validos_def)
  have p: "is_sort_values False cobertura [(''A'', 100, 50, Fin (1 / 2)), (''B'', 0, 0, Fin 0)]
        [(''A'', 100, 50, Fin (1 / 2)), (''B'', 0, 0, Fin 0)]"
    by (simp add: is_sort_values_def key_before_def cobertura_def)
  have h: "head 1 [(''A'', 100 :: nat, 50 :: nat, Fin (1 / 2)), (''B'', 0, 0, Fin 0)]
       = [(''A'', 100, 50, Fin (1 / 2))]"
    using T [THEN conjunct2, THEN conjunct2] p by blast
  have "\<exists>q. ultrassom_cobertura
          \<lparr>DSEI_GESTAO = Some ''A'', GESTANTES = Some 10, CONTAGEM = Some 5, ano = 2022\<rparr> = Fin q"
    using T [THEN conjunct2, THEN conjunct1] unfolding v by simp metis
  with h show ?thesis using process_prenatal_data_A_B v p by simp
qed

section \<open>The change between the two years\<close>

lemma round_half_even_nonneg: "0 \<le> m \<Longrightarrow> 0 \<le> round_half_even m"
proof -
  assume "0 \<le> m"
  then have "0 \<le> \<lfloor>m\<rfloor>" by simp
  then show ?thesis by (simp add: round_half_even_def Let_def)
qed

lemma round_f64_nonneg:
  assumes "0 \<le> x"
  shows "round_f64 x = PInf \<or> (\<exists>r\<ge>0. round_f64 x = Fin r)"
proof (cases "x = 0")
  case True
  then show ?thesis by (simp add: round_f64_zero)
next
  case False
  with assms have xpos: "0 < x" by simp
  define ulp :: rat where "ulp = 2 powi (max (ilog2 x) (- 1022) - 52)"
  define n where "n = round_half_even (x / ulp)"
  have u: "0 < ulp" by (simp add: ulp_def)
  have "0 \<le> n" unfolding n_def using u xpos by (intro round_half_even_nonneg) simp
  then have r: "0 \<le> of_int n * ulp" using u by simp
  have "round_f64 x = (if 2 powi 1024 \<le> of_int n * ulp then PInf else Fin (of_int n * ulp))"
    using xpos by (simp add: round_f64_def Let_def ulp_def [symmetric] n_def [symmetric])
  then show ?thesis using r by auto
qed

lemma f64_of_nat_cases: "f64_of_nat c = PInf \<or> (\<exists>r\<ge>0. f64_of_nat c = Fin r)"
  using round_f64_nonneg [of "of_nat c"] by (simp add: f64_of_nat_def f64_of_int_def)

lemma series_div_cases:
  "series_div c g = NaN \<or> series_div c g = PInf \<or> (\<exists>q\<ge>0. series_div c g = Fin q)"
proof -
  consider "f64_of_nat c = PInf" | a where "0 \<le> a" "f64_of_nat c = Fin a"
    using f64_of_nat_cases [of c] by blast
  then show ?thesis
  proof cases
    case 1
    then show ?thesis using f64_of_nat_cases [of g] by (auto simp: series_div_def)
  next
    case 2
    consider "f64_of_nat g = PInf" | b where "0 \<le> b" "f64_of_nat g = Fin b"
      using f64_of_nat_cases [of g] by blast
    then show ?thesis
    proof cases
      case 1
      with 2 show ?thesis by (simp add: series_div_def)
    next
      case b: 2
      show ?thesis
      proof (cases "b = 0")
        case True
        with 2 b show ?thesis by (auto simp: series_div_def)
      next
        case False
        with 2 b have "0 \<le> a / b" by simp
        from round_f64_nonneg [OF this] 2 b False show ?thesis by (auto simp: series_div_def)
      qed
    qed
  qed
qed

lemma pivot_cobertura_cases:
  "pivot_cobertura df k a = NaN \<or> pivot_cobertura df k a = PInf
     \<or> (\<exists>q\<ge>0. pivot_cobertura df k a = Fin q)"
  using series_div_cases by (auto simp: pivot_cobertura_def split: list.splits)

lemma variacao_from_zero:
  assumes "c23 = PInf \<or> (\<exists>q\<ge>0. c23 = Fin q)"
  shows "variacao (Fin 0) c23 = NaN \<or> variacao (Fin 0) c23 = PInf"
proof -
  from assms consider "c23 = PInf" | q where "0 \<le> q" "c23 = Fin q" by blast
  then show ?thesis
  proof cases
    case 1
    then show ?thesis by (simp add: variacao_def)
  next
    case 2
    then have "0 \<le> q - 0" by simp
    from round_f64_nonneg [OF this] 2 show ?thesis
      by (auto simp: variacao_def split: if_splits)
  qed
qed


lemma r15: "round_f64 (1 / 5) = Fin (3602879701896397 / 18014398509481984)"
  using round_f64_eqI [of "1 / 5" "- 3" 7205759403792794] by simp

lemma series_div_20_100: "series_div 20 100 = Fin (3602879701896397 / 18014398509481984)"
  using f64_of_nat_exact [of 20] f64_of_nat_exact [of 100] by (simp add: series_div_def r15)

lemma series_div_30_100: "series_div 30 100 = Fin (5404319552844595 / 18014398509481984)"
  using f64_of_nat_exact [of 30] f64_of_nat_exact [of 100] by (simp add: series_div_def r03)

lemma series_div_0_100: "series_div 0 100 = Fin 0"
  using f64_of_nat_exact [of 0] f64_of_nat_exact [of 100] by (simp add: series_div_def round_f64_zero)

lemma diff_03_02:
  "round_f64 (900719925474099 / 9007199254740992) = Fin (900719925474099 / 9007199254740992)"
  using round_f64_eqI [of "900719925474099 / 9007199254740992" "- 4" 7205759403792792] by simp

lemma quot_01_02:
  "round_f64 (1801439850948198 / 3602879701896397) = Fin (4503599627370495 / 9007199254740992)"
  using round_f64_eqI [of "1801439850948198 / 3602879701896397" "- 2" 9007199254740990] by simp

lemma times_100:
  "round_f64 (112589990684262375 / 2251799813685248) = Fin (3518437208883199 / 70368744177664)"
  using round_f64_eqI [of "112589990684262375 / 2251799813685248" 5 7036874417766398] by simp

lemma round_03d:
  "round_f64 (5404319552844595 / 18014398509481984) = Fin (5404319552844595 / 18014398509481984)"
  using round_f64_eqI [of "5404319552844595 / 18014398509481984" "- 2" 5404319552844595] by simp

lemma relative_change_02_03: "relative_change (Fin (3602879701896397 / 18014398509481984)) (Fin (5404319552844595 / 18014398509481984)) = Fin (4503599627370495 / 9007199254740992)"
  by (simp add: relative_change_def diff_03_02 quot_01_02)

lemma variacao_02_03: "variacao (Fin (3602879701896397 / 18014398509481984)) (Fin (5404319552844595 / 18014398509481984)) = Fin (3518437208883199 / 70368744177664)"
  by (simp add: variacao_def diff_03_02 quot_01_02 times_100)

lemma variacao_0_03: "variacao (Fin 0) (Fin (5404319552844595 / 18014398509481984)) = PInf"
  by (simp add: variacao_def round_03d)

lemma comparar_X:
  "comparar_evolucao_cobertura
      [\<lparr>DSEI_GESTAO = Some ''X'', GESTANTES = Some 100, CONTAGEM = Some 20, ano = 2022\<rparr>,
       \<lparr>DSEI_GESTAO = Some ''X'', GESTANTES = Some 100, CONTAGEM = Some 30, ano = 2023\<rparr>]
     = Some [(''X'', Fin (3602879701896397 / 18014398509481984),
          Fin (5404319552844595 / 18014398509481984),
          Fin (3518437208883199 / 70368744177664))]"
  by (simp add: comparar_evolucao_cobertura_def anos_def dropna_key_def group_keys_def
      List.map_filter_simps pivot_cobertura_def col_sum_def series_div_20_100 series_div_30_100
      variacao_02_03)

lemma comparar_X_zero:
  "comparar_evolucao_cobertura
      [\<lparr>DSEI_GESTAO = Some ''X'', GESTANTES = Some 100, CONTAGEM = Some 0, ano = 2022\<rparr>,
       \<lparr>DSEI_GESTAO = Some ''X'', GESTANTES = Some 100, CONTAGEM = Some 30, ano = 2023\<rparr>]
     = Some [(''X'', Fin 0, Fin (5404319552844595 / 18014398509481984), PInf)]"
  by (simp add: comparar_evolucao_cobertura_def anos_def dropna_key_def group_keys_def
      List.map_filter_simps pivot_cobertura_def col_sum_def series_div_0_100 series_div_30_100
      variacao_0_03)

text \<open>
  C6 (as stated, refuted). The claim: the period-over-period change is
  \<open>(later - earlier) / earlier\<close>, undefined when the earlier coverage is zero or
  undefined; from 0.20 to 0.30 it is 0.50. \<open>comparar_evolucao_cobertura\<close> multiplies
  the ratio by 100: from 20 of 100 to 30 of 100 its \<open>variacao\<close> is
  49.999999999999986 (the ratio itself would be 0.4999999999999999). From an earlier
  coverage of zero to a positive one it is plus infinity, a value pandas does not
  treat as missing.
\<close>

theorem change_is_in_percent_and_infinite_from_zero:
  "comparar_evolucao_cobertura
      [\<lparr>DSEI_GESTAO = Some ''X'', GESTANTES = Some 100, CONTAGEM = Some 20, ano = 2022\<rparr>,
       \<lparr>DSEI_GESTAO = Some ''X'', GESTANTES = Some 100, CONTAGEM = Some 30, ano = 2023\<rparr>]
     = Some [(''X'', Fin (3602879701896397 / 18014398509481984),
          Fin (5404319552844595 / 18014398509481984),
          Fin (3518437208883199 / 70368744177664))]
   \<and> relative_change (Fin (3602879701896397 / 18014398509481984)) (Fin (5404319552844595 / 18014398509481984)) = Fin (4503599627370495 / 9007199254740992)
   \<and> Fin (3518437208883199 / 70368744177664) \<noteq> Fin (1 / 2)
   \<and> comparar_evolucao_cobertura
      [\<lparr>DSEI_GESTAO = Some ''X'', GESTANTES = Some 100, CONTAGEM = Some 0, ano = 2022\<rparr>,
       \<lparr>DSEI_GESTAO = Some ''X'', GESTANTES = Some 100, CONTAGEM = Some 30, ano = 2023\<rparr>]
     = Some [(''X'', Fin 0, Fin (5404319552844595 / 18014398509481984), PInf)]
   \<and> relative_change (Fin 0) (Fin (5404319552844595 / 18014398509481984)) = NaN
   \<and> PInf \<noteq> NaN"
  by (simp add: comparar_X comparar_X_zero relative_change_02_03) (simp add: relative_change_def)

text \<open>
  C6 (amended). For every district in the result of \<open>comparar_evolucao_cobertura\<close>
  the coverages of 2022 and 2023 are both defined, and the change is
  \<open>((c2023 - c2022) / c2022) * 100\<close> in float64 arithmetic, the relative change in
  percent. The districts of the result are those with a defined coverage in both
  years: one whose coverage is missing in either year (no rows of that year, or 0/0)
  is dropped. When the earlier coverage is zero the change is plus infinity or NaN;
  nothing is raised. Without rows of both 2022 and 2023 nothing is computed.
\<close>

theorem change_between_years:
  assumes "comparar_evolucao_cobertura df_prenatal = Some out"
    and "(k, c2022, c2023, v) \<in> set out"
  shows "c2022 = pivot_cobertura df_prenatal k 2022 \<and> c2023 = pivot_cobertura df_prenatal k 2023
    \<and> c2022 \<noteq> NaN \<and> c2023 \<noteq> NaN
    \<and> v = fmul (fdiv (fsub c2023 c2022) c2022) (Fin 100)
    \<and> (c2022 = Fin 0 \<longrightarrow> v = NaN \<or> v = PInf)
    \<and> map fst out = filter (\<lambda>k. pivot_cobertura df_prenatal k 2022 \<noteq> NaN
                                \<and> pivot_cobertura df_prenatal k 2023 \<noteq> NaN)
                       (group_keys DSEI_GESTAO df_prenatal)
    \<and> 2022 \<in> set (anos df_prenatal) \<and> 2023 \<in> set (anos df_prenatal)"
proof -
  have yrs: "2022 \<in> set (anos df_prenatal) \<and> 2023 \<in> set (anos df_prenatal)"
    using assms(1) by (auto simp: comparar_evolucao_cobertura_def split: if_splits)
  then have out: "out = map (\<lambda>k. (k, pivot_cobertura df_prenatal k 2022, pivot_cobertura df_prenatal k 2023,
                    variacao (pivot_cobertura df_prenatal k 2022)
                             (pivot_cobertura df_prenatal k 2023)))
           (filter (\<lambda>k. pivot_cobertura df_prenatal k 2022 \<noteq> NaN
                       \<and> pivot_cobertura df_prenatal k 2023 \<noteq> NaN)
              (group_keys DSEI_GESTAO df_prenatal))"
    using assms(1) by (simp add: comparar_evolucao_cobertura_def)
  have row: "c2022 = pivot_cobertura df_prenatal k 2022" "c2023 = pivot_cobertura df_prenatal k 2023"
    "v = variacao c2022 c2023" "c2022 \<noteq> NaN" "c2023 \<noteq> NaN"
    using assms(2) unfolding out by auto
  have z: "v = NaN \<or> v = PInf" if "c2022 = Fin 0"
    using variacao_from_zero [of c2023] pivot_cobertura_cases [of df_prenatal k 2023] row that
    by auto
  have keys: "map fst out = filter (\<lambda>k. pivot_cobertura df_prenatal k 2022 \<noteq> NaN
                                \<and> pivot_cobertura df_prenatal k 2023 \<noteq> NaN)
                       (group_keys DSEI_GESTAO df_prenatal)"
    unfolding out by (simp add: comp_def)
  show ?thesis using yrs row z keys by (simp add: variacao_def)
qed

theorem change_between_years_witness:
  "comparar_evolucao_cobertura
      [\<lparr>DSEI_GESTAO = Some ''X'', GESTANTES = Some 100, CONTAGEM = Some 20, ano = 2022\<rparr>,
       \<lparr>DSEI_GESTAO = Some ''X'', GESTANTES = Some 100, CONTAGEM = Some 30, ano = 2023\<rparr>]
     = Some [(''X'', Fin (3602879701896397 / 18014398509481984),
          Fin (5404319552844595 / 18014398509481984),
          Fin (3518437208883199 / 70368744177664))]
   \<and> Fin (3602879701896397 / 18014398509481984) \<noteq> NaN \<and> Fin (5404319552844595 / 18014398509481984) \<noteq> NaN
   \<and> Fin (3518437208883199 / 70368744177664) = fmul (fdiv (fsub (Fin (5404319552844595 / 18014398509481984)) (Fin (3602879701896397 / 18014398509481984))) (Fin (3602879701896397 / 18014398509481984))) (Fin 100)"
proof -
  have m: "(''X'', Fin (3602879701896397 / 18014398509481984),
          Fin (5404319552844595 / 18014398509481984),
          Fin (3518437208883199 / 70368744177664)) \<in> set [(''X'', Fin (3602879701896397 / 18014398509481984),
          Fin (5404319552844595 / 18014398509481984),
          Fin (3518437208883199 / 70368744177664))]" by simp
  from comparar_X change_between_years [OF comparar_X m] show ?thesis
    by (elim conjE) (intro conjI; assumption)
qed

section \<open>Finding the columns\<close>

lemma find_column_None_iff:
  "find_column columns patterns = None
     \<longleftrightarrow> (\<forall>p\<in>set patterns. \<forall>c\<in>set columns. \<not> sublist (py_lower p) (py_lower c))"
  by (induction patterns) (auto simp: filter_empty_conv split: list.splits)

lemma find_column_Some:
  "find_column columns patterns = Some c
     \<Longrightarrow> c \<in> set columns \<and> (\<exists>p\<in>set patterns. sublist (py_lower p) (py_lower c))"
proof (induction patterns)
  case (Cons p ps)
  show ?case
  proof (cases "filter (\<lambda>col. sublist (py_lower p) (py_lower col)) columns")
    case Nil
    then show ?thesis using Cons by auto
  next
    case (Cons a as)
    then have "a \<in> set (filter (\<lambda>col. sublist (py_lower p) (py_lower col)) columns)" by simp
    moreover have "c = a" using Cons.prems Cons by simp
    ultimately show ?thesis by auto
  qed
qed simp

lemma first_col_Inl_iff: "first_col test columns = Inl e \<longleftrightarrow> e = IndexError \<and> (\<forall>c\<in>set columns. \<not> test c)"
proof (cases "filter test columns")
  case Nil
  then show ?thesis by (auto simp: first_col_def filter_empty_conv)
next
  case (Cons a as)
  then have "a \<in> set (filter test columns)" by simp
  then have "\<exists>c\<in>set columns. test c" by auto
  then show ?thesis using Cons by (auto simp: first_col_def)
qed

lemma gerar_resumo_colunas_error: "gerar_resumo_colunas columns = Inl e \<Longrightarrow> e = IndexError"
  by (auto simp: gerar_resumo_colunas_def first_col_Inl_iff split: sum.splits)

lemma process_without_dsei:
  "find_column columns [u ''dsei'', u ''dsei_gestao''] = None
     \<Longrightarrow> process_prenatal_data columns df = Inl TypeError"
  by (simp add: process_prenatal_data_def process_data_def)

lemma gerar_graficos_stops:
  "process_prenatal_data (fst t) (snd t) = Inl e \<Longrightarrow> gerar_graficos t t2 t3 t4 = Inl e"
  by (simp add: gerar_graficos_def generate_graph_def)

lemma lower_cp_idem: "lower_cp (lower_cp c) = lower_cp c"
  by (auto simp: lower_cp_def)

lemma py_lower_idem: "py_lower (py_lower s) = py_lower s"
  by (simp add: py_lower_def lower_cp_idem)

lemma find_column_lower:
  "find_column (map py_lower columns) (map py_lower patterns)
     = map_option py_lower (find_column columns patterns)"
proof (induction patterns)
  case (Cons p ps)
  have "filter (\<lambda>col. sublist (py_lower (py_lower p)) (py_lower col)) (map py_lower columns)
      = map py_lower (filter (\<lambda>col. sublist (py_lower p) (py_lower col)) columns)"
    by (simp add: filter_map comp_def py_lower_idem)
  then show ?case using Cons by (simp split: list.splits)
qed simp


lemma no_dsei_column:
  "find_column [u ''MUNICIPIO'', u ''TOTAL''] [u ''dsei'', u ''dsei_gestao''] = None"
  by (simp add: u_def py_lower_def lower_cp_def sublist_code(3))

lemma resumo_no_dsei: "gerar_resumo_colunas [u ''municipio'', u ''total''] = Inl IndexError"
  by (simp add: gerar_resumo_colunas_def first_col_def u_def py_lower_def lower_cp_def sublist_code(3))

text \<open>
  C2 (as stated, refuted). The claim: when no column matches any candidate of a
  required field, the resolver signals a MissingColumnError naming the field, and only
  that table's processing is aborted. No script defines or raises such an error:
  \<open>find_column\<close> returns \<open>None\<close>, after which \<open>process_prenatal_data\<close> fails in
  pandas with a \<open>TypeError\<close> that ends the whole run, the tables of the other year
  unprocessed; the resolvers of graficos_cobertura_prenatal.py fail with the
  \<open>IndexError\<close> of an empty list.
\<close>

theorem missing_column_is_silent_or_unrelated:
  "find_column [u ''MUNICIPIO'', u ''TOTAL''] [u ''dsei'', u ''dsei_gestao''] = None
   \<and> process_prenatal_data [u ''MUNICIPIO'', u ''TOTAL''] [] = Inl TypeError
   \<and> gerar_graficos ([u ''MUNICIPIO'', u ''TOTAL''], []) ([], []) ([], []) ([], []) = Inl TypeError
   \<and> gerar_resumo_colunas [u ''municipio'', u ''total''] = Inl IndexError"
proof -
  note b = process_without_dsei [OF no_dsei_column, of "[]"]
  have c: "gerar_graficos ([u ''MUNICIPIO'', u ''TOTAL''], []) ([], []) ([], []) ([], []) = Inl TypeError"
    by (rule gerar_graficos_stops) (simp only: fst_conv snd_conv b)
  show ?thesis by (intro conjI) (rule no_dsei_column b c resumo_no_dsei)+
qed

text \<open>
  C2 (amended). \<open>find_column\<close> returns \<open>None\<close> exactly when no column contains any
  candidate (both lower-cased), and otherwise a column of the table that contains one.
  With no district column found, \<open>process_prenatal_data\<close> raises a \<open>TypeError\<close>,
  which ends the run of the script. The resolvers that index a filtered list raise an
  \<open>IndexError\<close> exactly when no column passes the test, and \<open>IndexError\<close> is the
  only error of the column resolution of \<open>gerar_resumo_estatistico\<close>. None of them
  names the field.
\<close>

theorem missing_column_behaviour:
  "(find_column columns patterns = None
      \<longleftrightarrow> (\<forall>p\<in>set patterns. \<forall>c\<in>set columns. \<not> sublist (py_lower p) (py_lower c)))
   \<and> (\<forall>c. find_column columns patterns = Some c \<longrightarrow>
         c \<in> set columns \<and> (\<exists>p\<in>set patterns. sublist (py_lower p) (py_lower c)))
   \<and> (find_column columns [u ''dsei'', u ''dsei_gestao''] = None \<longrightarrow>
         process_prenatal_data columns df = Inl TypeError
         \<and> gerar_graficos (columns, df) t2 t3 t4 = Inl TypeError)
   \<and> (\<forall>e. first_col test columns = Inl e \<longleftrightarrow> e = IndexError \<and> (\<forall>c\<in>set columns. \<not> test c))
   \<and> (\<forall>e. gerar_resumo_colunas columns = Inl e \<longrightarrow> e = IndexError)"
proof (intro conjI allI impI)
  show "find_column columns patterns = None
      \<longleftrightarrow> (\<forall>p\<in>set patterns. \<forall>c\<in>set columns. \<not> sublist (py_lower p) (py_lower c))"
    by (rule find_column_None_iff)
next
  fix c assume "find_column columns patterns = Some c"
  from find_column_Some [OF this]
  show "c \<in> set columns" "\<exists>p\<in>set patterns. sublist (py_lower p) (py_lower c)" by simp_all
next
  assume n: "find_column columns [u ''dsei'', u ''dsei_gestao''] = None"
  show "process_prenatal_data columns df = Inl TypeError" by (rule process_without_dsei [OF n])
  then show "gerar_graficos (columns, df) t2 t3 t4 = Inl TypeError"
    by (simp add: gerar_graficos_stops)
next
  fix e show "first_col test columns = Inl e \<longleftrightarrow> e = IndexError \<and> (\<forall>c\<in>set columns. \<not> test c)"
    by (rule first_col_Inl_iff)
next
  fix e assume "gerar_resumo_colunas columns = Inl e"
  then show "e = IndexError" by (rule gerar_resumo_colunas_error)
qed

theorem missing_column_behaviour_witness:
  "find_column [u ''MUNICIPIO'', u ''TOTAL''] [u ''dsei'', u ''dsei_gestao''] = None
   \<and> process_prenatal_data [u ''MUNICIPIO'', u ''TOTAL''] [] = Inl TypeError
   \<and> gerar_graficos ([u ''MUNICIPIO'', u ''TOTAL''], []) ([], []) ([], []) ([], []) = Inl TypeError"
  using missing_column_behaviour [of "[u ''MUNICIPIO'', u ''TOTAL'']" "[u ''dsei'', u ''dsei_gestao'']"
      "[]" "([], [])" "([], [])" "([], [])"] no_dsei_column
  by blast


section \<open>Normalising the column names\<close>

lemma dropWhile_all: "\<forall>x\<in>set xs. P x \<Longrightarrow> dropWhile P (xs @ ys) = dropWhile P ys"
  by (induction xs) auto

lemma py_strip_surrounding:
  assumes l: "\<forall>c\<in>set ws. is_space c" and r: "\<forall>c\<in>set ws'. is_space c"
  shows "py_strip (ws @ name @ ws') = py_strip name"
proof (cases "dropWhile is_space name = []")
  case True
  then have n: "\<forall>c\<in>set name. is_space c" by (simp add: dropWhile_eq_Nil_conv)
  have e: "dropWhile is_space (ws @ name @ ws') = []"
    using l r n by (auto simp: dropWhile_eq_Nil_conv)
  have "py_strip (ws @ name @ ws') = []" unfolding py_strip_def e by simp
  moreover have "py_strip name = []" unfolding py_strip_def True by simp
  ultimately show ?thesis by simp
next
  case False
  then have "\<exists>c\<in>set name. \<not> is_space c" by (auto simp: dropWhile_eq_Nil_conv)
  then have a: "dropWhile is_space (name @ ws') = dropWhile is_space name @ ws'"
    by (auto simp: dropWhile_append)
  have b: "dropWhile is_space (rev ws' @ rev (dropWhile is_space name))
      = dropWhile is_space (rev (dropWhile is_space name))"
    using r by (intro dropWhile_all) simp
  have "py_strip (ws @ name @ ws')
      = rev (dropWhile is_space (rev (dropWhile is_space (name @ ws'))))"
    using l by (simp add: py_strip_def dropWhile_all)
  also have "\<dots> = rev (dropWhile is_space (rev (dropWhile is_space name)))"
    by (simp add: a b)
  finally show ?thesis by (simp add: py_strip_def)
qed

lemma nfkd_ascii_range: "c \<in> set (nfkd_ascii d) \<Longrightarrow> c < 128"
  unfolding nfkd_ascii_def by (simp split: if_splits) auto

lemma nfkd_ascii_upper_source:
  "c \<in> set (nfkd_ascii d) \<Longrightarrow> 65 \<le> c \<Longrightarrow> c \<le> 90
     \<Longrightarrow> (65 \<le> d \<and> d \<le> 90) \<or> (192 \<le> d \<and> d \<le> 221 \<and> d \<noteq> 215)"
  unfolding nfkd_ascii_def by (simp split: if_splits)

lemma lower_cp_not_upper:
  "\<not> (65 \<le> lower_cp d \<and> lower_cp d \<le> 90)"
  "\<not> (192 \<le> lower_cp d \<and> lower_cp d \<le> 221 \<and> lower_cp d \<noteq> 215)"
  unfolding lower_cp_def by (simp_all split: if_splits)

lemma nfkd_ascii_lower_no_upper:
  assumes "c \<in> set (nfkd_ascii (if lower_cp d = 32 then 95 else lower_cp d))"
  shows "\<not> (65 \<le> c \<and> c \<le> 90)"
proof
  assume c: "65 \<le> c \<and> c \<le> 90"
  show False
  proof (cases "lower_cp d = 32")
    case True
    with assms c show False by (simp add: nfkd_ascii_def)
  next
    case False
    with assms have "c \<in> set (nfkd_ascii (lower_cp d))" by simp
    from nfkd_ascii_upper_source [OF this] c lower_cp_not_upper [of d] show False by blast
  qed
qed

lemma clean_column_name_chars:
  assumes "c \<in> set (clean_column_name name)"
  shows "c < 128 \<and> \<not> (65 \<le> c \<and> c \<le> 90)"
proof -
  from assms obtain d where "c \<in> set (nfkd_ascii (if lower_cp d = 32 then 95 else lower_cp d))"
    by (auto simp: clean_column_name_def ascii_fold_def replace_space_def py_lower_def)
  then show ?thesis using nfkd_ascii_range nfkd_ascii_lower_no_upper by blast
qed


lemma clean_1: "clean_column_name (u ''DSEI_Gest'' @ [227] @ u ''o'') = u ''dsei_gestao''"
  by (simp add: clean_column_name_def ascii_fold_def replace_space_def py_lower_def lower_cp_def
      py_strip_def is_space_def nfkd_ascii_def u_def)

lemma clean_2: "clean_column_name (u ''dsei_gestao'') = u ''dsei_gestao''"
  by (simp add: clean_column_name_def ascii_fold_def replace_space_def py_lower_def lower_cp_def
      py_strip_def is_space_def nfkd_ascii_def u_def)

lemma clean_3: "clean_column_name (u ''Dsei Gestao '') = u ''dsei_gestao''"
  by (simp add: clean_column_name_def ascii_fold_def replace_space_def py_lower_def lower_cp_def
      py_strip_def is_space_def nfkd_ascii_def u_def)

lemma dsei_col_clean: "dsei_col [u ''dsei_gestao''] = Inr (u ''dsei_gestao'')"
  by (simp add: dsei_col_def first_col_def u_def sublist_code(3))

lemma find_1: "find_column [(u ''DSEI_Gest'' @ [227] @ u ''o'')] [u ''dsei'', u ''dsei_gestao''] = Some (u ''DSEI_Gest'' @ [227] @ u ''o'')"
  by (simp add: u_def py_lower_def lower_cp_def sublist_code(3))

lemma find_2: "find_column [(u ''dsei_gestao'')] [u ''dsei'', u ''dsei_gestao''] = Some (u ''dsei_gestao'')"
  by (simp add: u_def py_lower_def lower_cp_def sublist_code(3))

lemma find_3: "find_column [(u ''Dsei Gestao '')] [u ''dsei'', u ''dsei_gestao''] = Some (u ''Dsei Gestao '')"
  by (simp add: u_def py_lower_def lower_cp_def sublist_code(3))

lemma find_accent: "find_column [u ''DS'' @ [201] @ u ''I''] [u ''dsei'', u ''dsei_gestao''] = None"
  by (simp add: u_def py_lower_def lower_cp_def sublist_code(3))

lemma clean_accent: "dsei_col (clean_column_names [u ''DS'' @ [201] @ u ''I'']) = Inr (u ''dsei'')"
  by (simp add: dsei_col_def first_col_def clean_column_names_def clean_column_name_def
      ascii_fold_def replace_space_def py_lower_def lower_cp_def
      py_strip_def is_space_def nfkd_ascii_def u_def sublist_code(3))

lemma find_gestao_1: "find_column [(u ''DSEI_Gest'' @ [227] @ u ''o'')] [u ''gestao''] = None"
  by (simp add: u_def py_lower_def lower_cp_def sublist_code(3))

lemma find_gestao_2: "find_column [(u ''dsei_gestao'')] [u ''gestao''] = Some (u ''dsei_gestao'')"
  by (simp add: u_def py_lower_def lower_cp_def sublist_code(3))

text \<open>
  C9 (as stated, refuted). The claim: the Column Resolver's matching is case-,
  diacritic- and whitespace-insensitive, the names being normalised before matching.
  \<open>find_column\<close> only lower-cases: a header written with E acute (code point 201),
  DSEI with an accent, is not found under the candidates of the script, while it is
  found after \<open>clean_column_names\<close>; and under a candidate 'gestao' the first of the
  three names of the claim is not found while the second is.
\<close>

theorem find_column_is_diacritic_sensitive:
  "find_column [(u ''DS'' @ [201] @ u ''I'')] [u ''dsei'', u ''dsei_gestao''] = None
   \<and> dsei_col (clean_column_names [(u ''DS'' @ [201] @ u ''I'')]) = Inr (u ''dsei'')
   \<and> find_column [(u ''DSEI_Gest'' @ [227] @ u ''o'')] [u ''gestao''] = None
   \<and> find_column [(u ''dsei_gestao'')] [u ''gestao''] = Some (u ''dsei_gestao'')"
  by (intro conjI) (rule find_accent clean_accent find_gestao_1 find_gestao_2)+

text \<open>
  C9 (amended). \<open>clean_column_names\<close> of analise_gap_tecnologico.py strips the
  surrounding whitespace, lower-cases, replaces each space by an underscore and keeps
  the ASCII part of the decomposition of every character: the three names of the claim
  all become \<open>dsei_gestao\<close> and are picked as the district column; whitespace around
  a name changes nothing, and a cleaned Latin-1 name has only ASCII characters, none
  of them an upper-case letter. \<open>find_column\<close> of prenatal_ultrassonografia.py
  lower-cases the candidate and the name and nothing else: it is insensitive to case,
  not to diacritics; it finds each of the three names, through the candidate 'dsei'.
\<close>

theorem column_name_normalisation:
  "clean_column_name (u ''DSEI_Gest'' @ [227] @ u ''o'') = u ''dsei_gestao''
   \<and> clean_column_name (u ''dsei_gestao'') = u ''dsei_gestao''
   \<and> clean_column_name (u ''Dsei Gestao '') = u ''dsei_gestao''
   \<and> dsei_col (clean_column_names [(u ''DSEI_Gest'' @ [227] @ u ''o''), (u ''dsei_gestao''), (u ''Dsei Gestao '')]) = Inr (u ''dsei_gestao'')
   \<and> find_column [(u ''DSEI_Gest'' @ [227] @ u ''o'')] [u ''dsei'', u ''dsei_gestao''] = Some (u ''DSEI_Gest'' @ [227] @ u ''o'')
   \<and> find_column [(u ''dsei_gestao'')] [u ''dsei'', u ''dsei_gestao''] = Some (u ''dsei_gestao'')
   \<and> find_column [(u ''Dsei Gestao '')] [u ''dsei'', u ''dsei_gestao''] = Some (u ''Dsei Gestao '')
   \<and> find_column (map py_lower columns) (map py_lower patterns)
       = map_option py_lower (find_column columns patterns)
   \<and> ((\<forall>c\<in>set ws. is_space c) \<and> (\<forall>c\<in>set ws'. is_space c) \<longrightarrow>
         clean_column_name (ws @ name @ ws') = clean_column_name name)
   \<and> ((\<forall>c\<in>set name. c < 256) \<longrightarrow>
         (\<forall>c\<in>set (clean_column_name name). c < 128 \<and> \<not> (65 \<le> c \<and> c \<le> 90)))"
proof (intro conjI impI ballI)
  show "dsei_col (clean_column_names [(u ''DSEI_Gest'' @ [227] @ u ''o''), (u ''dsei_gestao''), (u ''Dsei Gestao '')]) = Inr (u ''dsei_gestao'')"
    unfolding clean_column_names_def list.map clean_1 clean_2 clean_3
    by (simp add: dsei_col_def first_col_def u_def sublist_code(3))
next
  assume "(\<forall>c\<in>set ws. is_space c) \<and> (\<forall>c\<in>set ws'. is_space c)"
  then have "py_strip (ws @ name @ ws') = py_strip name" by (intro py_strip_surrounding) simp_all
  then show "clean_column_name (ws @ name @ ws') = clean_column_name name"
    by (simp only: clean_column_name_def)
next
  fix c assume "c \<in> set (clean_column_name name)"
  from clean_column_name_chars [OF this]
  show "c < 128" "\<not> (65 \<le> c \<and> c \<le> 90)" by simp_all
qed (rule clean_1 clean_2 clean_3 find_1 find_2 find_3 find_column_lower)+

theorem column_name_normalisation_witness:
  "is_space 32 \<and> is_space 9
   \<and> clean_column_name ([32, 9] @ u ''DSEI'' @ [32]) = clean_column_name (u ''DSEI'')
   \<and> find_column (map py_lower [u ''DSEI'']) (map py_lower [u ''dsei''])
       = map_option py_lower (find_column [u ''DSEI''] [u ''dsei''])"
proof -
  have sp: "(\<forall>c\<in>set [32, 9]. is_space c) \<and> (\<forall>c\<in>set [32]. is_space c)"
    by (simp add: is_space_def)
  note T = column_name_normalisation [of "[u ''DSEI'']" "[u ''dsei'']" "[32, 9]" "[32]" "u ''DSEI''"]
  have "clean_column_name ([32, 9] @ u ''DSEI'' @ [32]) = clean_column_name (u ''DSEI'')"
    using T sp by blast
  moreover have "find_column (map py_lower [u ''DSEI'']) (map py_lower [u ''dsei''])
       = map_option py_lower (find_column [u ''DSEI''] [u ''dsei''])"
    using T by blast
  moreover have "is_space 32 \<and> is_space 9" by (simp add: is_space_def)
  ultimately show ?thesis by (intro conjI) simp_all
qed

end
